theory Spec2Isabelle
  imports Complex_Main "HOL-Library.Word"
begin

section \<open>Bytes, exceptions and length prefixes\<close>

text \<open>
  Python \<open>bytes\<close> are lists of 8-bit words. Every handler of the sources is
  \<open>except Exception\<close>, so an exception is modelled by the class it belongs to and a
  call that may raise returns a sum, \<open>Inl\<close> carrying the exception.
\<close>

type_synonym byte = "8 word"
type_synonym bytes = "byte list"

text \<open>A Python \<open>str\<close> is the list of its code points.\<close>

type_synonym str = "nat list"

datatype exn =
    OSError
  | OverflowError
  | ValueError
  | InvalidKey
  | InvalidTag
  | RuntimeError
  | UnicodeDecodeError

text \<open>\<open>int.from_bytes(b, byteorder="big")\<close>.\<close>

definition from_bytes :: "bytes \<Rightarrow> nat" where
  "from_bytes b = foldl (\<lambda>acc x. acc * 256 + unat x) 0 b"

text \<open>\<open>n.to_bytes(4, byteorder="big")\<close>, which raises OverflowError from \<open>2 ^ 32\<close> on.\<close>

definition be32 :: "nat \<Rightarrow> bytes" where
  "be32 n = [of_nat (n div 16777216), of_nat (n div 65536), of_nat (n div 256), of_nat n]"

definition to_bytes4 :: "nat \<Rightarrow> exn + bytes" where
  "to_bytes4 n = (if n < 4294967296 then Inr (be32 n) else Inl OverflowError)"

text \<open>A field on the wire: the four length bytes, then the payload.\<close>

definition frame :: "bytes \<Rightarrow> bytes" where
  "frame d = be32 (length d) @ d"

section \<open>Sockets\<close>

text \<open>
  A connected socket is what it will still deliver and what has been written to it.
  \<open>rx\<close> lists the segments in the order the network hands them over: \<open>Data c\<close> is a
  segment of bytes, \<open>Broken\<close> a transport error that makes \<open>recv\<close> raise. When the list
  is used up the peer has closed and \<open>recv\<close> returns the empty byte string.
  \<open>tx_budget\<close> is the number of \<open>sendall\<close> calls the connection still accepts before
  one raises (\<open>None\<close>: no limit), and \<open>close_raises\<close> tells whether \<open>close\<close> raises.
\<close>

datatype rx_event = Data bytes | Broken

record sock =
  rx :: "rx_event list"
  tx :: bytes
  tx_budget :: "nat option"
  close_raises :: bool

text \<open>\<open>sock.recv(bufsize)\<close>: at most \<open>bufsize\<close> bytes of the next segment.\<close>

definition recv :: "sock \<Rightarrow> nat \<Rightarrow> (exn + bytes) \<times> sock" where
  "recv s bufsize =
     (case rx s of
        [] \<Rightarrow> (Inr [], s)
      | Broken # rest \<Rightarrow> (Inl OSError, s\<lparr>rx := rest\<rparr>)
      | Data c # rest \<Rightarrow>
          (Inr (take bufsize c),
           s\<lparr>rx := (if drop bufsize c = [] then rest else Data (drop bufsize c) # rest)\<rparr>))"

text \<open>\<open>sock.sendall(data)\<close>.\<close>

definition sendall :: "sock \<Rightarrow> bytes \<Rightarrow> (exn + unit) \<times> sock" where
  "sendall s d =
     (case tx_budget s of
        None \<Rightarrow> (Inr (), s\<lparr>tx := tx s @ d\<rparr>)
      | Some 0 \<Rightarrow> (Inl OSError, s)
      | Some (Suc k) \<Rightarrow> (Inr (), s\<lparr>tx := tx s @ d, tx_budget := Some k\<rparr>))"

text \<open>\<open>sock.close()\<close>.\<close>

definition close :: "sock \<Rightarrow> exn + unit" where
  "close s = (if close_raises s then Inl OSError else Inr ())"

text \<open>
  The bytes a socket will deliver, when every segment is a non-empty piece of data:
  the concatenation of the segments.
\<close>

fun pending :: "rx_event list \<Rightarrow> bytes option" where
  "pending [] = Some []"
| "pending (Broken # rest) = None"
| "pending (Data c # rest) = (if c = [] then None else map_option ((@) c) (pending rest))"

section \<open>The exact-read primitive\<close>

text \<open>
  \<open>_receive_exact\<close> of \<open>ClassicalClient\<close>, \<open>PQCClient\<close> and \<open>PQCServer\<close> (the same
  loop in the three classes): \<open>receive_loop\<close> is the \<open>while\<close> loop with its variable
  \<open>data\<close>. The result is \<open>Inl\<close> when \<open>recv\<close> raises, \<open>Inr None\<close> for \<open>return None\<close> and
  \<open>Inr (Some data)\<close> for \<open>return data\<close>.
\<close>

function receive_loop :: "sock \<Rightarrow> nat \<Rightarrow> bytes \<Rightarrow> (exn + bytes option) \<times> sock" where
  "receive_loop s num_bytes data =
     (if length data < num_bytes then
        (case recv s (num_bytes - length data) of
           (Inl e, s') \<Rightarrow> (Inl e, s')
         | (Inr chunk, s') \<Rightarrow>
             if chunk = [] then (Inr None, s')
             else receive_loop s' num_bytes (data @ chunk))
      else (Inr (Some data), s))"
  by pat_completeness auto
termination
  by (relation "measure (\<lambda>(s, n, data). n - length data)")
     (auto simp: neq_Nil_conv)

definition receive_exact :: "sock \<Rightarrow> nat \<Rightarrow> (exn + bytes option) \<times> sock" where
  "receive_exact s num_bytes = receive_loop s num_bytes []"

text \<open>
  Every field is read by the same four statements,
  \<^verbatim>\<open>
    length_bytes = self._receive_exact(4)
    if not length_bytes: return None
    length = int.from_bytes(length_bytes, byteorder="big")
    payload = self._receive_exact(length)
    if not payload: return None
  \<close>
  which \<open>receive_field\<close> names once. \<open>Inr None\<close> is the caller's \<open>return None\<close>;
  \<open>not x\<close> holds for \<open>None\<close> and for the empty byte string.
\<close>

definition receive_field :: "sock \<Rightarrow> (exn + bytes option) \<times> sock" where
  "receive_field s =
     (case receive_exact s 4 of
        (Inl e, s1) \<Rightarrow> (Inl e, s1)
      | (Inr None, s1) \<Rightarrow> (Inr None, s1)
      | (Inr (Some length_bytes), s1) \<Rightarrow>
          if length_bytes = [] then (Inr None, s1)
          else
            (case receive_exact s1 (from_bytes length_bytes) of
               (Inl e, s2) \<Rightarrow> (Inl e, s2)
             | (Inr None, s2) \<Rightarrow> (Inr None, s2)
             | (Inr (Some payload), s2) \<Rightarrow>
                 if payload = [] then (Inr None, s2) else (Inr (Some payload), s2)))"

text \<open>
  Every field is written by
  \<^verbatim>\<open>
    sock.sendall(len(payload).to_bytes(4, byteorder="big"))
    sock.sendall(payload)
  \<close>
\<close>

definition send_field :: "sock \<Rightarrow> bytes \<Rightarrow> (exn + unit) \<times> sock" where
  "send_field s payload =
     (case to_bytes4 (length payload) of
        Inl e \<Rightarrow> (Inl e, s)
      | Inr length_bytes \<Rightarrow>
          (case sendall s length_bytes of
             (Inl e, s1) \<Rightarrow> (Inl e, s1)
           | (Inr u, s1) \<Rightarrow> sendall s1 payload))"

text \<open>
  A stream that ends inside a field: inside the four length bytes, or inside the payload
  they announce.
\<close>

definition short_field :: "bytes \<Rightarrow> bool" where
  "short_field bs = (length bs < 4 \<or> length bs < 4 + from_bytes (take 4 bs))"

text \<open>The bytes written to a socket between two of its states.\<close>

definition written :: "sock \<Rightarrow> sock \<Rightarrow> bytes" where
  "written s s' = drop (length (tx s)) (tx s')"

section \<open>The primitives of the libraries\<close>

text \<open>
  The sources call \<open>cryptography\<close> and \<open>oqs\<close>, and the built-in \<open>bytes.decode\<close> and
  \<open>str.lower\<close>; the model takes what these calls compute as a record of functions.
  Keys, signatures and ciphertexts are byte strings. A key pair the source generates is
  an argument of the routine that generates it, as are the coins of an encapsulation.
\<close>

record primitives =
  load_pem_public_key :: "bytes \<Rightarrow> exn + bytes"
  public_bytes :: "bytes \<Rightarrow> bytes"
  exchange :: "bytes \<Rightarrow> bytes \<Rightarrow> exn + bytes"
  hkdf_derive :: "nat \<Rightarrow> bytes \<Rightarrow> bytes \<Rightarrow> bytes"
  sign :: "bytes \<Rightarrow> bytes \<Rightarrow> bytes"
  verify :: "bytes \<Rightarrow> bytes \<Rightarrow> bytes \<Rightarrow> bool"
  encap_secret :: "bytes \<Rightarrow> bytes \<Rightarrow> exn + bytes \<times> bytes"
  decap_secret :: "bytes \<Rightarrow> bytes \<Rightarrow> exn + bytes"
  decrypt :: "bytes \<Rightarrow> bytes \<Rightarrow> bytes \<Rightarrow> exn + bytes"
  decode_utf8 :: "bytes \<Rightarrow> exn + str"
  str_lower :: "str \<Rightarrow> str"

text \<open>
  \<open>load_pem_public_key p pem\<close> deserialises a public key; \<open>public_bytes p sk\<close> is the PEM
  of the public key of the private key \<open>sk\<close>; \<open>exchange p sk pk\<close> is
  \<open>sk.exchange(ec.ECDH(), pk)\<close>; \<open>hkdf_derive p n info secret\<close> is
  \<open>HKDF(algorithm=SHA256, length=n, salt=None, info=info).derive(secret)\<close>;
  \<open>sign p sk m\<close> signs \<open>m\<close> with the secret key \<open>sk\<close>; \<open>verify p m sg pk\<close> is
  \<open>sig.verify(m, sg, pk)\<close>; \<open>encap_secret p pk coins\<close> returns ciphertext and shared
  secret; \<open>decap_secret p sk ct\<close> decapsulates with the secret key \<open>sk\<close>;
  \<open>decrypt p key nonce ct\<close> is \<open>AESGCM(key).decrypt(nonce, ct, None)\<close>;
  \<open>decode_utf8 p b\<close> is \<open>b.decode("utf-8")\<close>; \<open>str_lower p m\<close> is \<open>m.lower()\<close>.
\<close>

text \<open>The \<open>info\<close> argument of the HKDF, \<open>b"handshake data"\<close>.\<close>

definition handshake_data :: bytes where
  "handshake_data = [104, 97, 110, 100, 115, 104, 97, 107, 101, 32, 100, 97, 116, 97]"

text \<open>
  \<open>AESGCM(key)\<close>: the constructor raises ValueError unless the key has 128, 192 or 256
  bits. The cipher object is modelled by its key.
\<close>

definition AESGCM :: "bytes \<Rightarrow> exn + bytes" where
  "AESGCM key = (if length key = 16 \<or> length key = 24 \<or> length key = 32 then Inr key
                 else Inl ValueError)"

section \<open>The clients\<close>

text \<open>The fields of \<open>ClassicalClient\<close> and of \<open>PQCClient\<close>.\<close>

record client =
  host :: string
  port :: nat
  client_socket :: "sock option"
  aesgcm :: "bytes option"
  connected :: bool

text \<open>\<open>__init__\<close> of both classes.\<close>

definition new_client :: "string \<Rightarrow> nat \<Rightarrow> client" where
  "new_client h n =
     \<lparr>host = h, port = n, client_socket = None, aesgcm = None, connected = False\<rparr>"

text \<open>
  \<open>disconnect\<close>, the same in both classes. The \<open>try\<close> around \<open>close\<close> handles
  \<open>Exception\<close>, and the handler only prints.
\<close>

definition disconnect :: "client \<Rightarrow> exn + client" where
  "disconnect c =
     (let c1 = c\<lparr>connected := False\<rparr> in
      case client_socket c1 of
        Some s \<Rightarrow>
          (case close s of
             Inr u \<Rightarrow> Inr (c1\<lparr>client_socket := None, aesgcm := None\<rparr>)
           | Inl e \<Rightarrow> Inr (c1\<lparr>client_socket := None, aesgcm := None\<rparr>))
      | None \<Rightarrow> Inr (c1\<lparr>client_socket := None, aesgcm := None\<rparr>))"

text \<open>
  \<open>ClassicalClient._perform_key_exchange\<close>: first the body of its \<open>try\<close>, then the
  function, whose handler turns every exception into \<open>None\<close>.
\<close>

definition perform_key_exchange_try ::
  "primitives \<Rightarrow> bytes \<Rightarrow> sock \<Rightarrow> (exn + bytes option) \<times> sock" where
  "perform_key_exchange_try p client_private_key s =
     (case receive_field s of
        (Inl e, s1) \<Rightarrow> (Inl e, s1)
      | (Inr None, s1) \<Rightarrow> (Inr None, s1)
      | (Inr (Some server_public_bytes), s1) \<Rightarrow>
          (case load_pem_public_key p server_public_bytes of
             Inl e \<Rightarrow> (Inl e, s1)
           | Inr server_public_key \<Rightarrow>
               (case send_field s1 (public_bytes p client_private_key) of
                  (Inl e, s2) \<Rightarrow> (Inl e, s2)
                | (Inr u, s2) \<Rightarrow>
                    (case exchange p client_private_key server_public_key of
                       Inl e \<Rightarrow> (Inl e, s2)
                     | Inr shared_secret \<Rightarrow>
                         (Inr (Some (hkdf_derive p 32 handshake_data shared_secret)), s2)))))"

definition perform_key_exchange :: "primitives \<Rightarrow> bytes \<Rightarrow> sock \<Rightarrow> bytes option \<times> sock" where
  "perform_key_exchange p client_private_key s =
     (case perform_key_exchange_try p client_private_key s of
        (Inl e, s') \<Rightarrow> (None, s')
      | (Inr r, s') \<Rightarrow> (r, s'))"

text \<open>
  \<open>PQCClient._perform_pqc_key_exchange\<close>. The signature key pair and the KEM key pair
  are \<open>(public, secret)\<close>.
\<close>

definition client_perform_pqc_key_exchange_try ::
  "primitives \<Rightarrow> bytes \<times> bytes \<Rightarrow> bytes \<times> bytes \<Rightarrow> sock \<Rightarrow> (exn + bytes option) \<times> sock" where
  "client_perform_pqc_key_exchange_try p sig_keypair kem_keypair s =
     (let client_sig_public_key = fst sig_keypair in
      case receive_field s of
        (Inl e, s1) \<Rightarrow> (Inl e, s1)
      | (Inr None, s1) \<Rightarrow> (Inr None, s1)
      | (Inr (Some server_sig_public_key), s1) \<Rightarrow>
          (case send_field s1 client_sig_public_key of
             (Inl e, s2) \<Rightarrow> (Inl e, s2)
           | (Inr u, s2) \<Rightarrow>
               (let client_kem_public_key = fst kem_keypair;
                    kem_signature = sign p (snd sig_keypair) client_kem_public_key in
                case send_field s2 client_kem_public_key of
                  (Inl e, s3) \<Rightarrow> (Inl e, s3)
                | (Inr u, s3) \<Rightarrow>
                    (case send_field s3 kem_signature of
                       (Inl e, s4) \<Rightarrow> (Inl e, s4)
                     | (Inr u, s4) \<Rightarrow>
                         (case receive_field s4 of
                            (Inl e, s5) \<Rightarrow> (Inl e, s5)
                          | (Inr None, s5) \<Rightarrow> (Inr None, s5)
                          | (Inr (Some ciphertext), s5) \<Rightarrow>
                              (case receive_field s5 of
                                 (Inl e, s6) \<Rightarrow> (Inl e, s6)
                               | (Inr None, s6) \<Rightarrow> (Inr None, s6)
                               | (Inr (Some ciphertext_signature), s6) \<Rightarrow>
                                   if \<not> verify p ciphertext ciphertext_signature
                                          server_sig_public_key
                                   then (Inr None, s6)
                                   else
                                     (case decap_secret p (snd kem_keypair) ciphertext of
                                        Inl e \<Rightarrow> (Inl e, s6)
                                      | Inr shared_secret_client \<Rightarrow>
                                          (Inr (Some (take 32 shared_secret_client)), s6))))))))"

definition client_perform_pqc_key_exchange ::
  "primitives \<Rightarrow> bytes \<times> bytes \<Rightarrow> bytes \<times> bytes \<Rightarrow> sock \<Rightarrow> bytes option \<times> sock" where
  "client_perform_pqc_key_exchange p sig_keypair kem_keypair s =
     (case client_perform_pqc_key_exchange_try p sig_keypair kem_keypair s of
        (Inl e, s') \<Rightarrow> (None, s')
      | (Inr r, s') \<Rightarrow> (r, s'))"

text \<open>
  \<open>connect\<close>, the same in both classes but for the key exchange it calls, which is the
  argument \<open>key_exchange\<close>. \<open>net\<close> is the network: the connected socket a \<open>(host, port)\<close>
  with a listener gives, \<open>None\<close> where nobody listens and \<open>socket.connect\<close> raises. The
  socket object exists before \<open>connect\<close> is called on it, so it is in \<open>client_socket\<close>
  when the handler runs. \<open>connect_try\<close> is the body of the \<open>try\<close>, with the client as
  it is when the body is left; \<open>connect\<close> adds the handler, which calls \<open>disconnect\<close>
  and returns \<open>False\<close>.
\<close>

definition unconnected :: sock where
  "unconnected = \<lparr>rx = [], tx = [], tx_budget = Some 0, close_raises = False\<rparr>"

definition connect_try ::
  "(sock \<Rightarrow> bytes option \<times> sock) \<Rightarrow> (string \<times> nat \<Rightarrow> sock option) \<Rightarrow> client
     \<Rightarrow> (exn + bool) \<times> client" where
  "connect_try key_exchange net c =
     (case net (host c, port c) of
        None \<Rightarrow> (Inl OSError, c\<lparr>client_socket := Some unconnected\<rparr>)
      | Some s \<Rightarrow>
          (case key_exchange s of
             (aes_key, s') \<Rightarrow>
               (let c1 = c\<lparr>client_socket := Some s'\<rparr>;
                    no_key = (case disconnect c1 of
                                Inl e \<Rightarrow> (Inl e, c1)
                              | Inr c' \<Rightarrow> (Inr False, c'))
                in
                case aes_key of
                  None \<Rightarrow> no_key
                | Some key \<Rightarrow>
                    if key = [] then no_key
                    else
                      (case AESGCM key of
                         Inl e \<Rightarrow> (Inl e, c1)
                       | Inr cipher \<Rightarrow>
                           (Inr True, c1\<lparr>aesgcm := Some cipher, connected := True\<rparr>)))))"

definition connect ::
  "(sock \<Rightarrow> bytes option \<times> sock) \<Rightarrow> (string \<times> nat \<Rightarrow> sock option) \<Rightarrow> client
     \<Rightarrow> exn + bool \<times> client" where
  "connect key_exchange net c =
     (case connect_try key_exchange net c of
        (Inr ok, c') \<Rightarrow> Inr (ok, c')
      | (Inl e, c1) \<Rightarrow>
          (case disconnect c1 of
             Inl e' \<Rightarrow> Inl e'
           | Inr c' \<Rightarrow> Inr (False, c')))"

definition classical_connect ::
  "primitives \<Rightarrow> bytes \<Rightarrow> (string \<times> nat \<Rightarrow> sock option) \<Rightarrow> client \<Rightarrow> exn + bool \<times> client" where
  "classical_connect p client_private_key = connect (perform_key_exchange p client_private_key)"

definition pqc_connect ::
  "primitives \<Rightarrow> bytes \<times> bytes \<Rightarrow> bytes \<times> bytes \<Rightarrow> (string \<times> nat \<Rightarrow> sock option) \<Rightarrow> client
     \<Rightarrow> exn + bool \<times> client" where
  "pqc_connect p sig_keypair kem_keypair =
     connect (client_perform_pqc_key_exchange p sig_keypair kem_keypair)"

section \<open>The post-quantum server\<close>

text \<open>
  \<open>PQCServer._perform_pqc_key_exchange\<close>; \<open>coins\<close> is the randomness of
  \<open>kem.encap_secret\<close>.
\<close>

definition server_perform_pqc_key_exchange_try ::
  "primitives \<Rightarrow> bytes \<times> bytes \<Rightarrow> bytes \<Rightarrow> sock \<Rightarrow> (exn + bytes option) \<times> sock" where
  "server_perform_pqc_key_exchange_try p sig_keypair coins s =
     (let server_sig_public_key = fst sig_keypair in
      case send_field s server_sig_public_key of
        (Inl e, s1) \<Rightarrow> (Inl e, s1)
      | (Inr u, s1) \<Rightarrow>
          (case receive_field s1 of
             (Inl e, s2) \<Rightarrow> (Inl e, s2)
           | (Inr None, s2) \<Rightarrow> (Inr None, s2)
           | (Inr (Some client_sig_public_key), s2) \<Rightarrow>
               (case receive_field s2 of
                  (Inl e, s3) \<Rightarrow> (Inl e, s3)
                | (Inr None, s3) \<Rightarrow> (Inr None, s3)
                | (Inr (Some client_kem_public_key), s3) \<Rightarrow>
                    (case receive_field s3 of
                       (Inl e, s4) \<Rightarrow> (Inl e, s4)
                     | (Inr None, s4) \<Rightarrow> (Inr None, s4)
                     | (Inr (Some kem_signature), s4) \<Rightarrow>
                         if \<not> verify p client_kem_public_key kem_signature
                                client_sig_public_key
                         then (Inr None, s4)
                         else
                           (case encap_secret p client_kem_public_key coins of
                              Inl e \<Rightarrow> (Inl e, s4)
                            | Inr (ciphertext, shared_secret_server) \<Rightarrow>
                                (let ciphertext_signature = sign p (snd sig_keypair) ciphertext in
                                 case send_field s4 ciphertext of
                                   (Inl e, s5) \<Rightarrow> (Inl e, s5)
                                 | (Inr u, s5) \<Rightarrow>
                                     (case send_field s5 ciphertext_signature of
                                        (Inl e, s6) \<Rightarrow> (Inl e, s6)
                                      | (Inr u, s6) \<Rightarrow>
                                          (Inr (Some (take 32 shared_secret_server)), s6))))))))"

definition server_perform_pqc_key_exchange ::
  "primitives \<Rightarrow> bytes \<times> bytes \<Rightarrow> bytes \<Rightarrow> sock \<Rightarrow> bytes option \<times> sock" where
  "server_perform_pqc_key_exchange p sig_keypair coins s =
     (case server_perform_pqc_key_exchange_try p sig_keypair coins s of
        (Inl e, s') \<Rightarrow> (None, s')
      | (Inr r, s') \<Rightarrow> (r, s'))"

text \<open>\<open>PQCServer._receive_encrypted_message\<close>, the body of its \<open>try\<close> first.\<close>

definition receive_encrypted_message_try ::
  "primitives \<Rightarrow> sock \<Rightarrow> bytes \<Rightarrow> (exn + str option) \<times> sock" where
  "receive_encrypted_message_try p s cipher =
     (case receive_field s of
        (Inl e, s1) \<Rightarrow> (Inl e, s1)
      | (Inr None, s1) \<Rightarrow> (Inr None, s1)
      | (Inr (Some nonce), s1) \<Rightarrow>
          (case receive_field s1 of
             (Inl e, s2) \<Rightarrow> (Inl e, s2)
           | (Inr None, s2) \<Rightarrow> (Inr None, s2)
           | (Inr (Some ciphertext), s2) \<Rightarrow>
               (case decrypt p cipher nonce ciphertext of
                  Inl e \<Rightarrow> (Inl e, s2)
                | Inr plaintext \<Rightarrow>
                    (case decode_utf8 p plaintext of
                       Inl e \<Rightarrow> (Inl e, s2)
                     | Inr message \<Rightarrow> (Inr (Some message), s2)))))"

definition receive_encrypted_message ::
  "primitives \<Rightarrow> sock \<Rightarrow> bytes \<Rightarrow> str option \<times> sock" where
  "receive_encrypted_message p s cipher =
     (case receive_encrypted_message_try p s cipher of
        (Inl e, s') \<Rightarrow> (None, s')
      | (Inr r, s') \<Rightarrow> (r, s'))"

text \<open>
  The fields of \<open>PQCServer\<close> that \<open>_handle_client\<close> reads and writes: \<open>running\<close>,
  \<open>last_received_message\<close>, the lock \<open>_lock\<close> (held or free) and
  \<open>message_received_event\<close>, which is \<open>None\<close> (the constructor's default) or an event
  with its flag. \<open>trace\<close> is not a field of the class: it lists what the handler does to
  the state it shares with other threads, in the order in which it does it.
\<close>

datatype action = Acquire | Store str | Release | Signal

record server =
  running :: bool
  last_received_message :: "str option"
  lock_held :: bool
  message_received_event :: "bool option"
  trace :: "action list"

text \<open>The code points of \<open>"exit"\<close>.\<close>

definition exit_message :: str where
  "exit_message = [101, 120, 105, 116]"

text \<open>
  The body of the reception loop once a message has been decrypted:
  \<^verbatim>\<open>
    with self._lock:
        self.last_received_message = message
    if self.message_received_event:
        self.message_received_event.set()
    if message.lower() == "exit":
        break
  \<close>
  Each statement is a step on the server, in the order of the source. The \<open>with\<close>
  statement waits for the lock; the model goes on from where the handler has it.
\<close>

datatype control = Break | Continue

definition acquire :: "server \<Rightarrow> server" where
  "acquire srv = srv\<lparr>lock_held := True, trace := trace srv @ [Acquire]\<rparr>"

definition store_message :: "server \<Rightarrow> str \<Rightarrow> server" where
  "store_message srv message =
     srv\<lparr>last_received_message := Some message, trace := trace srv @ [Store message]\<rparr>"

definition release :: "server \<Rightarrow> server" where
  "release srv = srv\<lparr>lock_held := False, trace := trace srv @ [Release]\<rparr>"

definition signal_event :: "server \<Rightarrow> server" where
  "signal_event srv =
     (case message_received_event srv of
        None \<Rightarrow> srv
      | Some flag \<Rightarrow> srv\<lparr>message_received_event := Some True, trace := trace srv @ [Signal]\<rparr>)"

definition serve_message :: "primitives \<Rightarrow> server \<Rightarrow> str \<Rightarrow> control \<times> server" where
  "serve_message p srv message =
     (let srv1 = acquire srv;
          srv2 = store_message srv1 message;
          srv3 = release srv2;
          srv4 = signal_event srv3
      in if str_lower p message = exit_message then (Break, srv4) else (Continue, srv4))"

text \<open>The number of bytes a socket still holds; the reception loop uses some up in every round.\<close>

fun rx_bytes :: "rx_event list \<Rightarrow> nat" where
  "rx_bytes [] = 0"
| "rx_bytes (Broken # rest) = rx_bytes rest"
| "rx_bytes (Data c # rest) = length c + rx_bytes rest"

text \<open>The \<open>while self.running\<close> loop of \<open>_handle_client\<close>.\<close>

function serve_loop :: "primitives \<Rightarrow> bytes \<Rightarrow> server \<Rightarrow> sock \<Rightarrow> server \<times> sock" where
  "serve_loop p cipher srv s =
     (if running srv then
        (case receive_encrypted_message p s cipher of
           (None, s') \<Rightarrow> (srv, s')
         | (Some message, s') \<Rightarrow>
             (case serve_message p srv message of
                (Break, srv') \<Rightarrow> (srv', s')
              | (Continue, srv') \<Rightarrow> serve_loop p cipher srv' s'))
      else (srv, s))"
  by pat_completeness auto
termination
proof (relation "measure (\<lambda>(p, cipher, srv, s). rx_bytes (rx s))")
  show "wf (measure (\<lambda>(p, cipher, srv, s). rx_bytes (rx s)))"
    by simp
next
  fix p :: primitives and cipher :: bytes and srv srv' :: server and s s' :: sock
    and r :: "str option" and m :: str and ctl :: control
  assume received: "(r, s') = receive_encrypted_message p s cipher" "r = Some m"
  have recv_bytes: "rx_bytes (rx t') + length c = rx_bytes (rx t)"
    if "recv t n = (Inr c, t')" for t t' n c
    using that
    by (cases "rx t"; cases "hd (rx t)")
       (auto simp: recv_def split: list.splits rx_event.splits if_splits)
  have loop_bytes: "rx_bytes (rx t') + length d = rx_bytes (rx t) + length data"
    if "receive_loop t n data = (Inr (Some d), t')" for t t' n data d
    using that
  proof (induction t n data rule: receive_loop.induct)
    case (1 t n data)
    show ?case
    proof (cases "length data < n")
      case False
      with "1.prems" show ?thesis by simp
    next
      case True
      obtain r t1 where r: "recv t (n - length data) = (r, t1)"
        by (cases "recv t (n - length data)")
      with True "1.prems" obtain c where c: "r = Inr c" "c \<noteq> []"
        and rest: "receive_loop t1 n (data @ c) = (Inr (Some d), t')"
        by (cases r) (auto split: if_splits)
      from "1.IH"[OF True r[symmetric, unfolded c] refl c(2) rest]
      have "rx_bytes (rx t') + length d = rx_bytes (rx t1) + length (data @ c)" .
      with recv_bytes[OF r[unfolded c]] show ?thesis by simp
    qed
  qed
  have exact_bytes: "rx_bytes (rx t') + length d = rx_bytes (rx t)"
    if "receive_exact t n = (Inr (Some d), t')" for t t' n d
    using loop_bytes[of t n "[]" d t'] that by (simp add: receive_exact_def)
  have field_bytes: "rx_bytes (rx t') < rx_bytes (rx t)"
    if "receive_field t = (Inr (Some d), t')" for t t' d
  proof -
    obtain r1 t1 where r1: "receive_exact t 4 = (r1, t1)"
      by (cases "receive_exact t 4")
    with that obtain lb where lb: "r1 = Inr (Some lb)" "lb \<noteq> []"
      by (auto simp: receive_field_def split: sum.splits option.splits if_splits)
    obtain r2 t2 where r2: "receive_exact t1 (from_bytes lb) = (r2, t2)"
      by (cases "receive_exact t1 (from_bytes lb)")
    with that r1 lb have "r2 = Inr (Some d)" "t2 = t'"
      by (auto simp: receive_field_def split: sum.splits option.splits if_splits)
    with exact_bytes[OF r1[unfolded lb]] exact_bytes[of t1 "from_bytes lb" d t'] r2 lb(2)
    show ?thesis by (cases lb) auto
  qed
  from received have "receive_encrypted_message p s cipher = (Some m, s')" by simp
  then obtain nonce s1 ct where "receive_field s = (Inr (Some nonce), s1)"
    and "receive_field s1 = (Inr (Some ct), s')"
    by (auto simp: receive_encrypted_message_def receive_encrypted_message_try_def
             split: prod.splits sum.splits option.splits)
  with field_bytes[of s nonce s1] field_bytes[of s1 ct s']
  show "((p, cipher, srv', s'), (p, cipher, srv, s))
      \<in> measure (\<lambda>(p, cipher, srv, s). rx_bytes (rx s))"
    by simp
qed

declare serve_loop.simps [simp del]

text \<open>\<open>PQCServer._handle_client\<close>.\<close>

definition handle_client ::
  "primitives \<Rightarrow> bytes \<times> bytes \<Rightarrow> bytes \<Rightarrow> server \<Rightarrow> sock \<Rightarrow> server \<times> sock" where
  "handle_client p sig_keypair coins srv s =
     (case server_perform_pqc_key_exchange p sig_keypair coins s of
        (aes_key, s1) \<Rightarrow>
          (case aes_key of
             None \<Rightarrow> (srv, s1)
           | Some key \<Rightarrow>
               if key = [] then (srv, s1)
               else
                 (case AESGCM key of
                    Inl e \<Rightarrow> (srv, s1)
                  | Inr cipher \<Rightarrow> serve_loop p cipher srv s1)))"

section \<open>The classical server\<close>

text \<open>
  Modelled from the spec: \<open>server_classical.py\<close> (the class \<open>ClassicalServer\<close>) is not
  among the sources. The spec gives its server role as: generate an ECDH key pair, send
  the serialised public key (length-prefixed), receive the peer's serialised public key
  (length-prefixed), deserialise it, compute the shared secret by ECDH, and derive the
  32-byte key by the key-derivation step with the fixed label. Failures yield no key.
\<close>

definition classical_server_key_exchange_try ::
  "primitives \<Rightarrow> bytes \<Rightarrow> sock \<Rightarrow> (exn + bytes option) \<times> sock" where
  "classical_server_key_exchange_try p server_private_key s =
     (case send_field s (public_bytes p server_private_key) of
        (Inl e, s1) \<Rightarrow> (Inl e, s1)
      | (Inr u, s1) \<Rightarrow>
          (case receive_field s1 of
             (Inl e, s2) \<Rightarrow> (Inl e, s2)
           | (Inr None, s2) \<Rightarrow> (Inr None, s2)
           | (Inr (Some client_public_bytes), s2) \<Rightarrow>
               (case load_pem_public_key p client_public_bytes of
                  Inl e \<Rightarrow> (Inl e, s2)
                | Inr client_public_key \<Rightarrow>
                    (case exchange p server_private_key client_public_key of
                       Inl e \<Rightarrow> (Inl e, s2)
                     | Inr shared_secret \<Rightarrow>
                         (Inr (Some (hkdf_derive p 32 handshake_data shared_secret)), s2)))))"

definition classical_server_key_exchange ::
  "primitives \<Rightarrow> bytes \<Rightarrow> sock \<Rightarrow> bytes option \<times> sock" where
  "classical_server_key_exchange p server_private_key s =
     (case classical_server_key_exchange_try p server_private_key s of
        (Inl e, s') \<Rightarrow> (None, s')
      | (Inr r, s') \<Rightarrow> (r, s'))"

section \<open>The benchmark\<close>

text \<open>
  Python floats are taken as real numbers: rounding is left out. \<open>random.uniform(a, b)\<close>
  is \<open>a + (b - a) * random()\<close>, and the model takes the draw \<open>u\<close> of \<open>random()\<close>, a number
  of the unit interval, as an argument.
\<close>

definition uniform :: "real \<Rightarrow> real \<Rightarrow> real \<Rightarrow> real" where
  "uniform a b u = a + (b - a) * u"

text \<open>\<open>_simulate_network_penalties\<close>.\<close>

definition simulate_network_penalties :: "real \<Rightarrow> real \<Rightarrow> real \<Rightarrow> real \<Rightarrow> real" where
  "simulate_network_penalties elapsed_ms latency_ms packet_loss_percent u =
     (let adjusted = elapsed_ms + max latency_ms 0 in
      if packet_loss_percent > 0 then
        (let adjusted = adjusted * (1 + packet_loss_percent / 100);
             jitter = adjusted * (packet_loss_percent / 500)
         in adjusted + uniform 0 jitter u)
      else adjusted)"

text \<open>
  The timed block of \<open>measure_classical_handshake\<close> and of \<open>measure_pqc_handshake\<close>
  (the same statements, on the classes of each mode):
  \<^verbatim>\<open>
    start_time = time.perf_counter()
    if not client.connect():
        raise RuntimeError(...)
    client.disconnect()
    elapsed_ms = (time.perf_counter() - start_time) * 1000.0
  \<close>
  The clock is a state: \<open>now\<close> is its reading when the block starts, and each call
  moves it on by the time the call takes, \<open>connect_seconds\<close> for \<open>client.connect()\<close>
  (opening the socket and the handshake) and \<open>disconnect_seconds\<close> for
  \<open>client.disconnect()\<close>. The result is \<open>elapsed_ms\<close> and the clock after the block.
\<close>

definition timed_block :: "real \<Rightarrow> bool \<Rightarrow> real \<Rightarrow> real \<Rightarrow> exn + real \<times> real" where
  "timed_block now connect_ok connect_seconds disconnect_seconds =
     (let start_time = now;
          now1 = now + connect_seconds
      in if \<not> connect_ok then Inl RuntimeError
         else
           (let now2 = now1 + disconnect_seconds;
                elapsed_ms = (now2 - start_time) * 1000
            in Inr (elapsed_ms, now2)))"

text \<open>
  \<open>measure_classical_handshake\<close> and \<open>measure_pqc_handshake\<close> from the timed block on:
  the \<open>finally\<close> clause tears client and server down, and the function returns the
  adjusted time.
\<close>

definition measure_handshake ::
  "real \<Rightarrow> bool \<Rightarrow> real \<Rightarrow> real \<Rightarrow> real \<Rightarrow> real \<Rightarrow> real \<Rightarrow> exn + real" where
  "measure_handshake now connect_ok connect_seconds disconnect_seconds
       latency_ms packet_loss_percent u =
     (case timed_block now connect_ok connect_seconds disconnect_seconds of
        Inl e \<Rightarrow> Inl e
      | Inr (elapsed_ms, now') \<Rightarrow>
          Inr (simulate_network_penalties elapsed_ms latency_ms packet_loss_percent u))"

section \<open>A small instance of the primitives\<close>

text \<open>
  The theorems hold for any primitives. To run the model on concrete inputs, here are
  primitives small enough to compute by hand: a public key equals its private key, the
  ECDH secret is the bytewise sum of the two keys, the HKDF output is the label followed
  by the secret and padded with zeros, a signature is the key followed by the message,
  the KEM ciphertext is the coins and its secret the key followed by the coins,
  decryption checks the first byte of the ciphertext against the first byte of the key,
  decoding accepts the bytes below 128 as they are, and lowercasing maps the letters
  A to Z.
\<close>

definition toy :: primitives where
  "toy =
     \<lparr>load_pem_public_key = (\<lambda>pem. if pem = [255] then Inl ValueError else Inr pem),
      public_bytes = (\<lambda>sk. sk),
      exchange = (\<lambda>sk pk. if length pk = length sk then Inr (map2 (+) sk pk)
                            else Inl ValueError),
      hkdf_derive = (\<lambda>n info secret. take n (info @ secret @ replicate n 0)),
      sign = (\<lambda>sk m. sk @ m),
      verify = (\<lambda>m sg pk. sg = pk @ m),
      encap_secret = (\<lambda>pk coins. Inr (coins, pk @ coins)),
      decap_secret = (\<lambda>sk ct. if ct = [] then Inl RuntimeError else Inr (sk @ ct)),
      decrypt = (\<lambda>key nonce ct. if take 1 ct = take 1 key then Inr (drop 1 ct)
                                   else Inl InvalidTag),
      decode_utf8 = (\<lambda>b. if list_all (\<lambda>x. x < 128) b then Inr (map unat b)
                           else Inl UnicodeDecodeError),
      str_lower = map (\<lambda>c. if 65 \<le> c \<and> c \<le> 90 then c + 32 else c)\<rparr>"

section \<open>Length prefixes and exact reads\<close>

lemma length_be32: "length (be32 n) = 4"
  by (simp add: be32_def)

lemma from_bytes_be32: 
  assumes n: "n < 4294967296"
  shows "from_bytes (be32 n) = n"
proof -
  define a where "a = n div 256"
  define b where "b = a div 256"
  define c where "c = b div 256"
  have d2: "n div 65536 = b"
    unfolding b_def a_def by (simp add: div_mult2_eq)
  have d3: "n div 16777216 = c"
    unfolding c_def b_def a_def by (simp add: div_mult2_eq)
  have "c < 256"
    using n unfolding d3[symmetric] by (simp add: less_mult_imp_div_less)
  then have cm: "c mod 256 = c" by simp
  have u: "unat (of_nat k :: 8 word) = k mod 256" for k
    by (simp add: unat_of_nat)
  have e1: "c * 256 + b mod 256 = b" unfolding c_def by simp
  have e2: "b * 256 + a mod 256 = a" unfolding b_def by simp
  have e3: "a * 256 + n mod 256 = n" unfolding a_def by simp
  have "from_bytes (be32 n) = ((c mod 256 * 256 + b mod 256) * 256 + a mod 256) * 256 + n mod 256"
    by (simp add: from_bytes_def be32_def u d2 d3 a_def[symmetric])
  also have "\<dots> = n"
    by (simp only: cm e1 e2 e3)
  finally show ?thesis .
qed


lemma be32_nonempty: "be32 n \<noteq> []"
  by (simp add: be32_def)

lemma recv_rx_only: "recv s n = (r, s') \<Longrightarrow> s' = s\<lparr>rx := rx s'\<rparr>"
  by (auto simp: recv_def split: list.splits rx_event.splits)

lemma receive_loop_rx_only: "receive_loop s n data = (r, s') \<Longrightarrow> s' = s\<lparr>rx := rx s'\<rparr>"
proof (induction s n data rule: receive_loop.induct)
  case (1 s n data)
  show ?case
  proof (cases "length data < n")
    case False
    with "1.prems" show ?thesis by simp
  next
    case True
    obtain q s1 where q: "recv s (n - length data) = (q, s1)"
      by (cases "recv s (n - length data)")
    note s1 = recv_rx_only[OF q]
    show ?thesis
    proof (cases q)
      case (Inl e)
      with True q "1.prems" s1 show ?thesis by simp
    next
      case (Inr c)
      show ?thesis
      proof (cases "c = []")
        case True
        with \<open>length data < n\<close> q Inr "1.prems" s1 show ?thesis by simp
      next
        case False
        with \<open>length data < n\<close> q Inr "1.prems"
        have "receive_loop s1 n (data @ c) = (r, s')" by simp
        from "1.IH"[OF \<open>length data < n\<close> q[symmetric, unfolded Inr] refl False this]
        have "s' = s1\<lparr>rx := rx s'\<rparr>" .
        then have "s' = (s\<lparr>rx := rx s1\<rparr>)\<lparr>rx := rx s'\<rparr>"
          using s1 by simp
        then show ?thesis by simp
      qed
    qed
  qed
qed


lemma receive_loop_enough:
  "pending (rx s) = Some bs \<Longrightarrow> length data \<le> n \<Longrightarrow> n - length data \<le> length bs \<Longrightarrow>
   \<exists>r. receive_loop s n data = (Inr (Some (data @ take (n - length data) bs)), s\<lparr>rx := r\<rparr>)
       \<and> pending r = Some (drop (n - length data) bs)"
proof (induction s n data arbitrary: bs rule: receive_loop.induct)
  case (1 s n data)
  show ?case
  proof (cases "length data < n")
    case False
    with "1.prems" have "receive_loop s n data = (Inr (Some data), s)" by simp
    moreover from False "1.prems" have "n - length data = 0" by simp
    ultimately show ?thesis using "1.prems"(1)
      by (intro exI[of _ "rx s"]) simp
  next
    case True
    let ?k = "n - length data"
    from True "1.prems" have bs_ne: "bs \<noteq> []" by auto
    with "1.prems"(1) obtain c rest bs' where
      rxs: "rx s = Data c # rest" and c_ne: "c \<noteq> []"
      and rest: "pending rest = Some bs'" and bs: "bs = c @ bs'"
      by (cases "rx s"; cases "hd (rx s)") (auto split: if_splits)
    let ?s' = "s\<lparr>rx := (if drop ?k c = [] then rest else Data (drop ?k c) # rest)\<rparr>"
    have rc: "recv s ?k = (Inr (take ?k c), ?s')"
      by (simp add: recv_def rxs)
    from True c_ne have tk_ne: "take ?k c \<noteq> []" by (cases c) auto
    have unfold: "receive_loop s n data = receive_loop ?s' n (data @ take ?k c)"
      using True rc tk_ne by (subst receive_loop.simps) simp
    have pend': "pending (rx ?s') = Some (drop ?k c @ bs')"
      using rest by auto
    have len': "length (data @ take ?k c) \<le> n" using True by simp
    have enough': "n - length (data @ take ?k c) \<le> length (drop ?k c @ bs')"
      using "1.prems"(3) bs by simp
    from "1.IH"[OF True rc[symmetric] refl tk_ne pend' len' enough']
    obtain r where
      r: "receive_loop ?s' n (data @ take ?k c) =
            (Inr (Some ((data @ take ?k c) @ take (n - length (data @ take ?k c)) (drop ?k c @ bs'))),
             ?s'\<lparr>rx := r\<rparr>)"
      and pr: "pending r = Some (drop (n - length (data @ take ?k c)) (drop ?k c @ bs'))"
      by blast
    have e1: "(data @ take ?k c) @ take (n - length (data @ take ?k c)) (drop ?k c @ bs')
              = data @ take ?k bs"
      using True by (auto simp: bs min_def)
    have e2: "drop (n - length (data @ take ?k c)) (drop ?k c @ bs') = drop ?k bs"
      using True by (auto simp: bs min_def)
    show ?thesis
      using unfold r pr e1 e2 by (intro exI[of _ r]) simp
  qed
qed

lemma receive_loop_short:
  "pending (rx s) = Some bs \<Longrightarrow> length bs < n - length data \<Longrightarrow>
   receive_loop s n data = (Inr None, s\<lparr>rx := []\<rparr>)"
proof (induction s n data arbitrary: bs rule: receive_loop.induct)
  case (1 s n data)
  from "1.prems" have lt: "length data < n" by simp
  let ?k = "n - length data"
  show ?case
  proof (cases "rx s")
    case Nil
    then have "recv s ?k = (Inr [], s)" by (simp add: recv_def)
    moreover have "s = s\<lparr>rx := []\<rparr>" using Nil by simp
    ultimately show ?thesis using lt by (subst receive_loop.simps) simp
  next
    case (Cons ev rest)
    with "1.prems"(1) obtain c bs' where
      ev: "ev = Data c" and c_ne: "c \<noteq> []"
      and rest: "pending rest = Some bs'" and bs: "bs = c @ bs'"
      by (cases ev) (auto split: if_splits)
    from "1.prems"(2) bs have short: "length c < ?k" by simp
    have rc: "recv s ?k = (Inr c, s\<lparr>rx := rest\<rparr>)"
      using short by (simp add: recv_def Cons ev)
    have unfold: "receive_loop s n data = receive_loop (s\<lparr>rx := rest\<rparr>) n (data @ c)"
      using lt rc c_ne by (subst receive_loop.simps) simp
    have p': "pending (rx (s\<lparr>rx := rest\<rparr>)) = Some bs'" using rest by simp
    have l': "length bs' < n - length (data @ c)" using "1.prems"(2) bs by simp
    from "1.IH"[OF lt rc[symmetric] refl c_ne p' l'] unfold
    show ?thesis by simp
  qed
qed

lemma receive_exact_enough:
  "pending (rx s) = Some bs \<Longrightarrow> n \<le> length bs \<Longrightarrow>
   \<exists>r. receive_exact s n = (Inr (Some (take n bs)), s\<lparr>rx := r\<rparr>) \<and> pending r = Some (drop n bs)"
  using receive_loop_enough[of s bs "[]" n] by (simp add: receive_exact_def)

lemma receive_exact_short:
  "pending (rx s) = Some bs \<Longrightarrow> length bs < n \<Longrightarrow>
   receive_exact s n = (Inr None, s\<lparr>rx := []\<rparr>)"
  using receive_loop_short[of s bs n "[]"] by (simp add: receive_exact_def)

lemma receive_exact_zero: "receive_exact s 0 = (Inr (Some []), s)"
  by (simp add: receive_exact_def)

lemma receive_exact_rx_only: "receive_exact s n = (r, s') \<Longrightarrow> s' = s\<lparr>rx := rx s'\<rparr>"
  unfolding receive_exact_def by (rule receive_loop_rx_only)

lemma receive_field_rx_only: "receive_field s = (r, s') \<Longrightarrow> s' = s\<lparr>rx := rx s'\<rparr>"
proof -
  assume a: "receive_field s = (r, s')"
  obtain r1 s1 where r1: "receive_exact s 4 = (r1, s1)" by (cases "receive_exact s 4")
  note e1 = receive_exact_rx_only[OF r1]
  show ?thesis
  proof (cases "\<exists>lb. r1 = Inr (Some lb) \<and> lb \<noteq> []")
    case False
    with a r1 have "s' = s1"
      by (auto simp: receive_field_def split: sum.splits option.splits if_splits)
    with e1 show ?thesis by simp
  next
    case True
    then obtain lb where lb: "r1 = Inr (Some lb)" "lb \<noteq> []" by blast
    obtain r2 s2 where r2: "receive_exact s1 (from_bytes lb) = (r2, s2)"
      by (cases "receive_exact s1 (from_bytes lb)")
    note e2 = receive_exact_rx_only[OF r2]
    from a r1 lb r2 have "s' = s2"
      by (auto simp: receive_field_def split: sum.splits option.splits if_splits)
    with e2 have "s' = s1\<lparr>rx := rx s'\<rparr>" by simp
    then have "s' = (s\<lparr>rx := rx s1\<rparr>)\<lparr>rx := rx s'\<rparr>" using e1 by simp
    then show ?thesis by simp
  qed
qed

lemma receive_field_frame:
  assumes p: "pending (rx s) = Some (frame d @ rest)" and len: "length d < 4294967296"
  shows "\<exists>r. receive_field s = (Inr (if d = [] then None else Some d), s\<lparr>rx := r\<rparr>)
             \<and> pending r = Some rest"
proof -
  have four: "4 \<le> length (frame d @ rest)" by (simp add: frame_def length_be32)
  from receive_exact_enough[OF p four] obtain r1 where
    r1: "receive_exact s 4 = (Inr (Some (be32 (length d))), s\<lparr>rx := r1\<rparr>)"
    and p1: "pending r1 = Some (d @ rest)"
    by (auto simp: frame_def length_be32)
  have p1': "pending (rx (s\<lparr>rx := r1\<rparr>)) = Some (d @ rest)" using p1 by simp
  have "length d \<le> length (d @ rest)" by simp
  from receive_exact_enough[OF p1' this] obtain r2 where
    r2: "receive_exact (s\<lparr>rx := r1\<rparr>) (length d) = (Inr (Some d), s\<lparr>rx := r2\<rparr>)"
    and p2: "pending r2 = Some rest"
    by auto
  have "receive_field s = (Inr (if d = [] then None else Some d), s\<lparr>rx := r2\<rparr>)"
    by (simp add: receive_field_def r1 be32_nonempty from_bytes_be32[OF len] r2)
  with p2 show ?thesis by blast
qed

lemma receive_field_short:
  assumes p: "pending (rx s) = Some bs"
    and short: "length bs < 4 \<or> length bs < 4 + from_bytes (take 4 bs)"
  shows "receive_field s = (Inr None, s\<lparr>rx := []\<rparr>)"
proof (cases "length bs < 4")
  case True
  from receive_exact_short[OF p True] show ?thesis
    by (simp add: receive_field_def)
next
  case False
  then have four: "4 \<le> length bs" by simp
  from receive_exact_enough[OF p four] obtain r1 where
    r1: "receive_exact s 4 = (Inr (Some (take 4 bs)), s\<lparr>rx := r1\<rparr>)"
    and p1: "pending r1 = Some (drop 4 bs)"
    by auto
  have ne: "bs \<noteq> []" using four by auto
  have p1': "pending (rx (s\<lparr>rx := r1\<rparr>)) = Some (drop 4 bs)" using p1 by simp
  have "length (drop 4 bs) < from_bytes (take 4 bs)" using short False by simp
  from receive_exact_short[OF p1' this]
  have "receive_exact (s\<lparr>rx := r1\<rparr>) (from_bytes (take 4 bs)) = (Inr None, s\<lparr>rx := []\<rparr>)"
    by simp
  then show ?thesis by (simp add: receive_field_def r1 ne)
qed

lemma sendall_ok:
  "sendall s d = (Inr u, s') \<Longrightarrow>
     tx s' = tx s @ d \<and> rx s' = rx s \<and> close_raises s' = close_raises s"
  by (auto simp: sendall_def split: option.splits nat.splits)

lemma sendall_rx: "sendall s d = (r, s') \<Longrightarrow> rx s' = rx s"
  by (auto simp: sendall_def split: option.splits nat.splits)

lemma send_field_ok:
  "send_field s d = (Inr u, s') \<Longrightarrow>
     length d < 4294967296 \<and> tx s' = tx s @ frame d \<and> rx s' = rx s"
  by (auto simp: send_field_def to_bytes4_def frame_def
           split: if_splits prod.splits sum.splits dest!: sendall_ok)

lemma send_field_rx: "send_field s d = (r, s') \<Longrightarrow> rx s' = rx s"
  by (auto simp: send_field_def to_bytes4_def
           split: if_splits prod.splits sum.splits dest!: sendall_rx)

text \<open>
  C4. For every requested byte count \<open>n\<close>, the exact-read primitive returns exactly \<open>n\<close>
  bytes when the stream supplies them, however the bytes are cut into segments, leaving
  the rest of the stream to the next read; and it returns \<open>None\<close>, a value and not an
  exception, when the stream closes before \<open>n\<close> bytes have come. For a field this covers
  both places where the peer may close: inside the four length bytes, and inside the
  payload the length bytes announce.
\<close>

theorem receive_exact_n_bytes_or_None:
  "pending (rx s) = Some bs \<Longrightarrow>
     (n \<le> length bs \<longrightarrow>
        (\<exists>r. receive_exact s n = (Inr (Some (take n bs)), s\<lparr>rx := r\<rparr>)
             \<and> pending r = Some (drop n bs))
        \<and> length (take n bs) = n)
     \<and> (length bs < n \<longrightarrow> receive_exact s n = (Inr None, s\<lparr>rx := []\<rparr>))
     \<and> (length bs < 4 \<or> length bs < 4 + from_bytes (take 4 bs) \<longrightarrow>
          receive_field s = (Inr None, s\<lparr>rx := []\<rparr>))"
  using receive_exact_enough[of s bs n] receive_exact_short[of s bs n]
    receive_field_short[of s bs]
  by simp

theorem receive_exact_n_bytes_or_None_witness:
  "fst (receive_exact
          \<lparr>rx = [Data [0, 0], Data [0, 3, 7], Data [8]], tx = [], tx_budget = None,
           close_raises = False\<rparr> 4) = Inr (Some [0, 0, 0, 3])
   \<and> fst (receive_exact
          \<lparr>rx = [Data [0, 0], Data [0, 3, 7], Data [8]], tx = [], tx_budget = None,
           close_raises = False\<rparr> 7) = Inr None
   \<and> fst (receive_field
          \<lparr>rx = [Data [0, 0], Data [0, 3, 7], Data [8]], tx = [], tx_budget = None,
           close_raises = False\<rparr>) = Inr None
   \<and> fst (receive_field
          \<lparr>rx = [Data [0, 0], Data [0]], tx = [], tx_budget = None,
           close_raises = False\<rparr>) = Inr None"
  using receive_exact_n_bytes_or_None
      [of "\<lparr>rx = [Data [0, 0], Data [0, 3, 7], Data [8]], tx = [], tx_budget = None,
            close_raises = False\<rparr>" "[0, 0, 0, 3, 7, 8]" 4]
    receive_exact_n_bytes_or_None
      [of "\<lparr>rx = [Data [0, 0], Data [0, 3, 7], Data [8]], tx = [], tx_budget = None,
            close_raises = False\<rparr>" "[0, 0, 0, 3, 7, 8]" 7]
    receive_exact_n_bytes_or_None
      [of "\<lparr>rx = [Data [0, 0], Data [0]], tx = [], tx_budget = None,
            close_raises = False\<rparr>" "[0, 0, 0]" 4]
  by (auto simp: from_bytes_def)

section \<open>What a routine that returns a key has done\<close>

lemma receive_field_frame_det:
  assumes "pending (rx s) = Some (frame d @ rest)" "length d < 4294967296"
    and "receive_field s = (Inr (Some d'), s')"
  shows "d' = d \<and> d \<noteq> [] \<and> pending (rx s') = Some rest"
  using receive_field_frame[OF assms(1,2)] assms(3)
  by (auto split: if_splits)

lemma receive_field_frame_empty:
  assumes "pending (rx s) = Some (frame [] @ rest)"
  shows "fst (receive_field s) = Inr None"
  using receive_field_frame[OF assms] by auto

lemma client_pqc_success:
  assumes "client_perform_pqc_key_exchange p skp kkp s = (Some key, s')"
  shows "\<exists>k ct sg s1 s2 s3 s4 s5 ss.
           receive_field s = (Inr (Some k), s1)
         \<and> send_field s1 (fst skp) = (Inr (), s2)
         \<and> send_field s2 (fst kkp) = (Inr (), s3)
         \<and> send_field s3 (sign p (snd skp) (fst kkp)) = (Inr (), s4)
         \<and> receive_field s4 = (Inr (Some ct), s5)
         \<and> receive_field s5 = (Inr (Some sg), s')
         \<and> verify p ct sg k
         \<and> decap_secret p (snd kkp) ct = Inr ss
         \<and> key = take 32 ss"
  using assms
  unfolding client_perform_pqc_key_exchange_def client_perform_pqc_key_exchange_try_def Let_def
  by (auto split: prod.splits sum.splits option.splits if_splits)


lemma server_pqc_success:
  assumes "server_perform_pqc_key_exchange p skp coins s = (Some key, s')"
  shows "\<exists>k kem sg ct ss s1 s2 s3 s4 s5.
           send_field s (fst skp) = (Inr (), s1)
         \<and> receive_field s1 = (Inr (Some k), s2)
         \<and> receive_field s2 = (Inr (Some kem), s3)
         \<and> receive_field s3 = (Inr (Some sg), s4)
         \<and> verify p kem sg k
         \<and> encap_secret p kem coins = Inr (ct, ss)
         \<and> send_field s4 ct = (Inr (), s5)
         \<and> send_field s5 (sign p (snd skp) ct) = (Inr (), s')
         \<and> key = take 32 ss"
  using assms
  unfolding server_perform_pqc_key_exchange_def server_perform_pqc_key_exchange_try_def Let_def
  by (auto split: prod.splits sum.splits option.splits if_splits)

lemma classical_client_success:
  assumes "perform_key_exchange p sk s = (Some key, s')"
  shows "\<exists>pem pk ss s1.
           receive_field s = (Inr (Some pem), s1)
         \<and> load_pem_public_key p pem = Inr pk
         \<and> send_field s1 (public_bytes p sk) = (Inr (), s')
         \<and> exchange p sk pk = Inr ss
         \<and> key = hkdf_derive p 32 handshake_data ss"
  using assms
  unfolding perform_key_exchange_def perform_key_exchange_try_def
  by (auto split: prod.splits sum.splits option.splits if_splits)

lemma classical_server_success:
  assumes "classical_server_key_exchange p sk s = (Some key, s')"
  shows "\<exists>pem pk ss s1.
           send_field s (public_bytes p sk) = (Inr (), s1)
         \<and> receive_field s1 = (Inr (Some pem), s')
         \<and> load_pem_public_key p pem = Inr pk
         \<and> exchange p sk pk = Inr ss
         \<and> key = hkdf_derive p 32 handshake_data ss"
  using assms
  unfolding classical_server_key_exchange_def classical_server_key_exchange_try_def
  by (auto split: prod.splits sum.splits option.splits if_splits)

lemma receive_encrypted_message_success:
  assumes "receive_encrypted_message p s cipher = (Some m, s')"
  shows "\<exists>nonce ct plaintext s1.
           receive_field s = (Inr (Some nonce), s1)
         \<and> receive_field s1 = (Inr (Some ct), s')
         \<and> decrypt p cipher nonce ct = Inr plaintext
         \<and> decode_utf8 p plaintext = Inr m"
  using assms
  unfolding receive_encrypted_message_def receive_encrypted_message_try_def
  by (auto split: prod.splits sum.splits option.splits if_splits)

lemma disconnect_eq:
  "disconnect c = Inr (c\<lparr>connected := False, client_socket := None, aesgcm := None\<rparr>)"
  by (simp add: disconnect_def Let_def split: option.splits sum.splits)

section \<open>Fields of length zero\<close>

lemma no_key_if: "(\<And>key s'. f = (Some key, s') \<Longrightarrow> False) \<Longrightarrow> fst f = None"
  by (cases f; cases "fst f") auto

lemma client_pqc_zero_length:
  assumes len: "length a < 4294967296" "length b < 4294967296"
    and p: "pending (rx s) = Some (frame [] @ rest)
          \<or> pending (rx s) = Some (frame a @ frame [] @ rest)
          \<or> pending (rx s) = Some (frame a @ frame b @ frame [] @ rest)"
  shows "fst (client_perform_pqc_key_exchange p skp kkp s) = None"
proof (rule no_key_if)
  fix key s'
  assume "client_perform_pqc_key_exchange p skp kkp s = (Some key, s')"
  from client_pqc_success[OF this] obtain k ct sg s1 s2 s3 s4 s5 where
    f1: "receive_field s = (Inr (Some k), s1)"
    and snd1: "send_field s1 (fst skp) = (Inr (), s2)"
    and snd2: "send_field s2 (fst kkp) = (Inr (), s3)"
    and snd3: "send_field s3 (sign p (snd skp) (fst kkp)) = (Inr (), s4)"
    and f2: "receive_field s4 = (Inr (Some ct), s5)"
    and f3: "receive_field s5 = (Inr (Some sg), s')"
    by blast
  have rx4: "rx s4 = rx s1"
    using send_field_rx[OF snd1] send_field_rx[OF snd2] send_field_rx[OF snd3] by simp
  from p consider
      (one) "pending (rx s) = Some (frame [] @ rest)"
    | (two) "pending (rx s) = Some (frame a @ frame [] @ rest)"
    | (three) "pending (rx s) = Some (frame a @ frame b @ frame [] @ rest)"
    by blast
  then show False
  proof cases
    case one
    from receive_field_frame_empty[OF this] f1 show False by simp
  next
    case two
    from receive_field_frame_det[OF two len(1) f1]
    have "pending (rx s4) = Some (frame [] @ rest)" by (simp add: rx4)
    from receive_field_frame_empty[OF this] f2 show False by simp
  next
    case three
    from receive_field_frame_det[OF three len(1) f1]
    have "pending (rx s4) = Some (frame b @ frame [] @ rest)" by (simp add: rx4)
    from receive_field_frame_det[OF this len(2) f2]
    have "pending (rx s5) = Some (frame [] @ rest)" by simp
    from receive_field_frame_empty[OF this] f3 show False by simp
  qed
qed

lemma server_pqc_zero_length:
  assumes len: "length a < 4294967296" "length b < 4294967296"
    and p: "pending (rx s) = Some (frame [] @ rest)
          \<or> pending (rx s) = Some (frame a @ frame [] @ rest)
          \<or> pending (rx s) = Some (frame a @ frame b @ frame [] @ rest)"
  shows "fst (server_perform_pqc_key_exchange p skp coins s) = None"
proof (rule no_key_if)
  fix key s'
  assume "server_perform_pqc_key_exchange p skp coins s = (Some key, s')"
  from server_pqc_success[OF this] obtain k kem sg s1 s2 s3 s4 where
    snd1: "send_field s (fst skp) = (Inr (), s1)"
    and f1: "receive_field s1 = (Inr (Some k), s2)"
    and f2: "receive_field s2 = (Inr (Some kem), s3)"
    and f3: "receive_field s3 = (Inr (Some sg), s4)"
    by blast
  have rx1: "rx s1 = rx s" using send_field_rx[OF snd1] .
  from p consider
      (one) "pending (rx s1) = Some (frame [] @ rest)"
    | (two) "pending (rx s1) = Some (frame a @ frame [] @ rest)"
    | (three) "pending (rx s1) = Some (frame a @ frame b @ frame [] @ rest)"
    unfolding rx1 by blast
  then show False
  proof cases
    case one
    from receive_field_frame_empty[OF this] f1 show False by simp
  next
    case two
    from receive_field_frame_det[OF two len(1) f1]
    have "pending (rx s2) = Some (frame [] @ rest)" by simp
    from receive_field_frame_empty[OF this] f2 show False by simp
  next
    case three
    from receive_field_frame_det[OF three len(1) f1]
    have "pending (rx s2) = Some (frame b @ frame [] @ rest)" by simp
    from receive_field_frame_det[OF this len(2) f2]
    have "pending (rx s3) = Some (frame [] @ rest)" by simp
    from receive_field_frame_empty[OF this] f3 show False by simp
  qed
qed

lemma classical_client_zero_length:
  assumes p: "pending (rx s) = Some (frame [] @ rest)"
  shows "fst (perform_key_exchange p sk s) = None"
proof (rule no_key_if)
  fix key s'
  assume "perform_key_exchange p sk s = (Some key, s')"
  from classical_client_success[OF this] obtain pem s1 where
    "receive_field s = (Inr (Some pem), s1)" by blast
  with receive_field_frame_empty[OF p] show False by simp
qed

lemma receive_encrypted_message_zero_length:
  assumes len: "length a < 4294967296"
    and p: "pending (rx s) = Some (frame [] @ rest)
          \<or> pending (rx s) = Some (frame a @ frame [] @ rest)"
  shows "fst (receive_encrypted_message p s cipher) = None"
proof (rule no_key_if)
  fix m s'
  assume "receive_encrypted_message p s cipher = (Some m, s')"
  from receive_encrypted_message_success[OF this] obtain nonce ct s1 where
    f1: "receive_field s = (Inr (Some nonce), s1)"
    and f2: "receive_field s1 = (Inr (Some ct), s')"
    by blast
  from p show False
  proof
    assume "pending (rx s) = Some (frame [] @ rest)"
    from receive_field_frame_empty[OF this] f1 show False by simp
  next
    assume two: "pending (rx s) = Some (frame a @ frame [] @ rest)"
    from receive_field_frame_det[OF two len f1]
    have "pending (rx s1) = Some (frame [] @ rest)" by simp
    from receive_field_frame_empty[OF this] f2 show False by simp
  qed
qed

text \<open>
  C10. A field whose four length bytes are zero cannot be told from a closed stream at
  any receiver. \<open>_receive_exact\<close> called for 0 bytes returns the empty byte string
  without reading; the caller's \<open>if not payload\<close> then returns \<open>None\<close>, the value it
  also returns on a closed stream. So a zero-length field, in the first, second or third
  place of a handshake or as nonce or ciphertext of a message, makes the routine return
  \<open>None\<close>: the classical client and the post-quantum client and server yield no key,
  and the message reception yields no message. The fields before it are any fields of
  a length that fits the four bytes.
\<close>

theorem zero_length_field_aborts:
  "receive_exact s 0 = (Inr (Some []), s)
   \<and> (pending (rx s) = Some [] \<longrightarrow> fst (receive_field s) = Inr None)
   \<and> (pending (rx s) = Some (frame [] @ rest) \<longrightarrow>
        fst (receive_field s) = Inr None \<and> fst (perform_key_exchange p sk s) = None)
   \<and> (length a < 4294967296 \<and> length b < 4294967296
        \<and> (pending (rx s) = Some (frame [] @ rest)
           \<or> pending (rx s) = Some (frame a @ frame [] @ rest)
           \<or> pending (rx s) = Some (frame a @ frame b @ frame [] @ rest)) \<longrightarrow>
        fst (client_perform_pqc_key_exchange p skp kkp s) = None
        \<and> fst (server_perform_pqc_key_exchange p skp coins s) = None)
   \<and> (length a < 4294967296
        \<and> (pending (rx s) = Some (frame [] @ rest)
           \<or> pending (rx s) = Some (frame a @ frame [] @ rest)) \<longrightarrow>
        fst (receive_encrypted_message p s cipher) = None)"
proof (intro conjI impI)
  show "receive_exact s 0 = (Inr (Some []), s)" by (rule receive_exact_zero)
next
  assume "pending (rx s) = Some []"
  then show "fst (receive_field s) = Inr None"
    using receive_field_short[of s "[]"] by simp
next
  assume "pending (rx s) = Some (frame [] @ rest)"
  then show "fst (receive_field s) = Inr None" by (rule receive_field_frame_empty)
next
  assume "pending (rx s) = Some (frame [] @ rest)"
  then show "fst (perform_key_exchange p sk s) = None" by (rule classical_client_zero_length)
next
  assume h: "length a < 4294967296 \<and> length b < 4294967296
        \<and> (pending (rx s) = Some (frame [] @ rest)
           \<or> pending (rx s) = Some (frame a @ frame [] @ rest)
           \<or> pending (rx s) = Some (frame a @ frame b @ frame [] @ rest))"
  then show "fst (client_perform_pqc_key_exchange p skp kkp s) = None"
    using client_pqc_zero_length[of a b s rest] by blast
  from h show "fst (server_perform_pqc_key_exchange p skp coins s) = None"
    using server_pqc_zero_length[of a b s rest] by blast
next
  assume "length a < 4294967296
        \<and> (pending (rx s) = Some (frame [] @ rest)
           \<or> pending (rx s) = Some (frame a @ frame [] @ rest))"
  then show "fst (receive_encrypted_message p s cipher) = None"
    using receive_encrypted_message_zero_length[of a s rest] by blast
qed

theorem zero_length_field_aborts_witness:
  "fst (receive_field \<lparr>rx = [Data [0, 0, 0, 0]], tx = [], tx_budget = None,
                        close_raises = False\<rparr>) = Inr None
   \<and> fst (receive_field \<lparr>rx = [], tx = [], tx_budget = None,
                        close_raises = False\<rparr>) = Inr None
   \<and> fst (perform_key_exchange toy [5]
            \<lparr>rx = [Data [0, 0, 0, 0]], tx = [], tx_budget = None,
             close_raises = False\<rparr>) = None
   \<and> fst (client_perform_pqc_key_exchange toy ([1], [1]) ([2], [2])
            \<lparr>rx = [Data [0, 0, 0, 1, 7], Data [0, 0, 0, 0]], tx = [], tx_budget = None,
             close_raises = False\<rparr>) = None
   \<and> fst (server_perform_pqc_key_exchange toy ([1], [1]) [9]
            \<lparr>rx = [Data [0, 0, 0, 1, 7], Data [0, 0, 0, 0]], tx = [], tx_budget = None,
             close_raises = False\<rparr>) = None
   \<and> fst (receive_encrypted_message toy
            \<lparr>rx = [Data [0, 0, 0, 1, 7], Data [0, 0, 0, 0]], tx = [], tx_budget = None,
             close_raises = False\<rparr> [3]) = None"
  using zero_length_field_aborts
      [where s = "\<lparr>rx = [Data [0, 0, 0, 0]], tx = [], tx_budget = None,
                   close_raises = False\<rparr>"
         and rest = "[]" and p = toy and sk = "[5]" and a = "[]" and b = "[]"]
    zero_length_field_aborts
      [where s = "\<lparr>rx = [], tx = [], tx_budget = None, close_raises = False\<rparr>"]
    zero_length_field_aborts
      [where s = "\<lparr>rx = [Data [0, 0, 0, 1, 7], Data [0, 0, 0, 0]], tx = [],
                   tx_budget = None, close_raises = False\<rparr>"
         and rest = "[]" and a = "[7]" and b = "[]" and p = toy and skp = "([1], [1])"
         and kkp = "([2], [2])" and coins = "[9]" and cipher = "[3]"]
  by (simp add: frame_def be32_def)

text \<open>
  C9. \<open>disconnect\<close> never raises: it returns (\<open>Inr\<close>) on every client, also one whose
  socket raises on \<open>close\<close>. The client it leaves has \<open>connected = False\<close>,
  \<open>client_socket = None\<close> and \<open>aesgcm = None\<close>; a second call returns that same client,
  and so does a call on a client that never connected.
\<close>

theorem disconnect_never_raises:
  "disconnect c = Inr (c\<lparr>connected := False, client_socket := None, aesgcm := None\<rparr>)
   \<and> disconnect (c\<lparr>connected := False, client_socket := None, aesgcm := None\<rparr>)
       = Inr (c\<lparr>connected := False, client_socket := None, aesgcm := None\<rparr>)
   \<and> disconnect (new_client h n) = Inr (new_client h n)
   \<and> close (s\<lparr>close_raises := True\<rparr>) = Inl OSError
   \<and> disconnect (c\<lparr>client_socket := Some (s\<lparr>close_raises := True\<rparr>)\<rparr>)
       = Inr (c\<lparr>connected := False, client_socket := None, aesgcm := None\<rparr>)"
  by (simp add: disconnect_eq new_client_def close_def)

section \<open>From the bytes on the wire to the fields a routine reads\<close>

lemma client_pqc_fields:
  assumes run: "client_perform_pqc_key_exchange p skp kkp s = (Some key, s')"
    and p: "pending (rx s) = Some (frame k @ frame ct @ frame sg @ rest)"
    and len: "length k < 4294967296" "length ct < 4294967296" "length sg < 4294967296"
  shows "verify p ct sg k \<and> (\<exists>ss. decap_secret p (snd kkp) ct = Inr ss \<and> key = take 32 ss)
         \<and> pending (rx s') = Some rest
         \<and> (\<exists>s1 s2 s3 s4 s5.
               receive_field s = (Inr (Some k), s1)
             \<and> send_field s1 (fst skp) = (Inr (), s2)
             \<and> send_field s2 (fst kkp) = (Inr (), s3)
             \<and> send_field s3 (sign p (snd skp) (fst kkp)) = (Inr (), s4)
             \<and> receive_field s4 = (Inr (Some ct), s5)
             \<and> receive_field s5 = (Inr (Some sg), s'))"
proof -
  from client_pqc_success[OF run] obtain k' ct' sg' s1 s2 s3 s4 s5 ss where
    f1: "receive_field s = (Inr (Some k'), s1)"
    and snd1: "send_field s1 (fst skp) = (Inr (), s2)"
    and snd2: "send_field s2 (fst kkp) = (Inr (), s3)"
    and snd3: "send_field s3 (sign p (snd skp) (fst kkp)) = (Inr (), s4)"
    and f2: "receive_field s4 = (Inr (Some ct'), s5)"
    and f3: "receive_field s5 = (Inr (Some sg'), s')"
    and v: "verify p ct' sg' k'"
    and d: "decap_secret p (snd kkp) ct' = Inr ss" "key = take 32 ss"
    by blast
  have rx4: "rx s4 = rx s1"
    using send_field_rx[OF snd1] send_field_rx[OF snd2] send_field_rx[OF snd3] by simp
  from receive_field_frame_det[OF p len(1) f1]
  have k: "k' = k" and p1: "pending (rx s4) = Some (frame ct @ frame sg @ rest)"
    by (simp_all add: rx4)
  from receive_field_frame_det[OF p1 len(2) f2]
  have ct: "ct' = ct" and p2: "pending (rx s5) = Some (frame sg @ rest)" by simp_all
  from receive_field_frame_det[OF p2 len(3) f3]
  have sg: "sg' = sg" and p3: "pending (rx s') = Some rest" by simp_all
  show ?thesis
    using v d p3 f1 snd1 snd2 snd3 f2 f3 unfolding k ct sg by blast
qed

lemma server_pqc_fields:
  assumes run: "server_perform_pqc_key_exchange p skp coins s = (Some key, s')"
    and p: "pending (rx s) = Some (frame k @ frame kem @ frame sg @ rest)"
    and len: "length k < 4294967296" "length kem < 4294967296" "length sg < 4294967296"
  shows "verify p kem sg k
         \<and> pending (rx s') = Some rest
         \<and> (\<exists>ct ss s1 s2 s3 s4 s5.
               encap_secret p kem coins = Inr (ct, ss) \<and> key = take 32 ss
             \<and> send_field s (fst skp) = (Inr (), s1)
             \<and> receive_field s1 = (Inr (Some k), s2)
             \<and> receive_field s2 = (Inr (Some kem), s3)
             \<and> receive_field s3 = (Inr (Some sg), s4)
             \<and> send_field s4 ct = (Inr (), s5)
             \<and> send_field s5 (sign p (snd skp) ct) = (Inr (), s'))"
proof -
  from server_pqc_success[OF run] obtain k' kem' sg' ct ss s1 s2 s3 s4 s5 where
    snd1: "send_field s (fst skp) = (Inr (), s1)"
    and f1: "receive_field s1 = (Inr (Some k'), s2)"
    and f2: "receive_field s2 = (Inr (Some kem'), s3)"
    and f3: "receive_field s3 = (Inr (Some sg'), s4)"
    and v: "verify p kem' sg' k'"
    and e: "encap_secret p kem' coins = Inr (ct, ss)"
    and snd2: "send_field s4 ct = (Inr (), s5)"
    and snd3: "send_field s5 (sign p (snd skp) ct) = (Inr (), s')"
    and key: "key = take 32 ss"
    by blast
  have p0: "pending (rx s1) = Some (frame k @ frame kem @ frame sg @ rest)"
    using send_field_rx[OF snd1] p by simp
  from receive_field_frame_det[OF p0 len(1) f1]
  have k: "k' = k" and p1: "pending (rx s2) = Some (frame kem @ frame sg @ rest)" by simp_all
  from receive_field_frame_det[OF p1 len(2) f2]
  have kem: "kem' = kem" and p2: "pending (rx s3) = Some (frame sg @ rest)" by simp_all
  from receive_field_frame_det[OF p2 len(3) f3]
  have sg: "sg' = sg" and p3: "pending (rx s4) = Some rest" by simp_all
  have p4: "pending (rx s') = Some rest"
    using send_field_rx[OF snd2] send_field_rx[OF snd3] p3 by simp
  show ?thesis
    using v e key p4 snd1 f1 f2 f3 snd2 snd3 unfolding k kem sg by blast
qed

lemma classical_client_fields:
  assumes run: "perform_key_exchange p sk s = (Some key, s')"
    and p: "pending (rx s) = Some (frame pem @ rest)"
    and len: "length pem < 4294967296"
  shows "\<exists>pk ss s1. receive_field s = (Inr (Some pem), s1)
           \<and> load_pem_public_key p pem = Inr pk
           \<and> send_field s1 (public_bytes p sk) = (Inr (), s')
           \<and> exchange p sk pk = Inr ss
           \<and> key = hkdf_derive p 32 handshake_data ss
           \<and> pending (rx s') = Some rest"
proof -
  from classical_client_success[OF run] obtain pem' pk ss s1 where
    f1: "receive_field s = (Inr (Some pem'), s1)"
    and l: "load_pem_public_key p pem' = Inr pk"
    and snd1: "send_field s1 (public_bytes p sk) = (Inr (), s')"
    and x: "exchange p sk pk = Inr ss" "key = hkdf_derive p 32 handshake_data ss"
    by blast
  from receive_field_frame_det[OF p len f1]
  have pem: "pem' = pem" and p1: "pending (rx s1) = Some rest" by simp_all
  have "pending (rx s') = Some rest" using send_field_rx[OF snd1] p1 by simp
  with f1 l snd1 x show ?thesis unfolding pem by blast
qed

lemma classical_server_fields:
  assumes run: "classical_server_key_exchange p sk s = (Some key, s')"
    and p: "pending (rx s) = Some (frame pem @ rest)"
    and len: "length pem < 4294967296"
  shows "\<exists>pk ss s1. send_field s (public_bytes p sk) = (Inr (), s1)
           \<and> receive_field s1 = (Inr (Some pem), s')
           \<and> load_pem_public_key p pem = Inr pk
           \<and> exchange p sk pk = Inr ss
           \<and> key = hkdf_derive p 32 handshake_data ss
           \<and> pending (rx s') = Some rest"
proof -
  from classical_server_success[OF run] obtain pem' pk ss s1 where
    snd1: "send_field s (public_bytes p sk) = (Inr (), s1)"
    and f1: "receive_field s1 = (Inr (Some pem'), s')"
    and l: "load_pem_public_key p pem' = Inr pk"
    and x: "exchange p sk pk = Inr ss" "key = hkdf_derive p 32 handshake_data ss"
    by blast
  have p0: "pending (rx s1) = Some (frame pem @ rest)"
    using send_field_rx[OF snd1] p by simp
  from receive_field_frame_det[OF p0 len f1]
  have pem: "pem' = pem" and p1: "pending (rx s') = Some rest" by simp_all
  with snd1 f1 l x show ?thesis unfolding pem by blast
qed

section \<open>Both ends of one handshake\<close>

lemma receive_field_tx: "receive_field s = (r, s') \<Longrightarrow> tx s' = tx s"
  using receive_field_rx_only[of s r s']
  by (metis sock.select_convs(2) sock.surjective sock.update_convs(1))

lemma client_pqc_written:
  assumes "client_perform_pqc_key_exchange p skp kkp s = (Some key, s')"
  shows "written s s' = frame (fst skp) @ frame (fst kkp) @ frame (sign p (snd skp) (fst kkp))
         \<and> length (fst skp) < 4294967296 \<and> length (fst kkp) < 4294967296
         \<and> length (sign p (snd skp) (fst kkp)) < 4294967296"
proof -
  from client_pqc_success[OF assms] obtain k ct sg s1 s2 s3 s4 s5 where
    f1: "receive_field s = (Inr (Some k), s1)"
    and snd1: "send_field s1 (fst skp) = (Inr (), s2)"
    and snd2: "send_field s2 (fst kkp) = (Inr (), s3)"
    and snd3: "send_field s3 (sign p (snd skp) (fst kkp)) = (Inr (), s4)"
    and f2: "receive_field s4 = (Inr (Some ct), s5)"
    and f3: "receive_field s5 = (Inr (Some sg), s')"
    by blast
  have "tx s' = tx s @ frame (fst skp) @ frame (fst kkp) @ frame (sign p (snd skp) (fst kkp))"
    using receive_field_tx[OF f1] send_field_ok[OF snd1] send_field_ok[OF snd2]
      send_field_ok[OF snd3] receive_field_tx[OF f2] receive_field_tx[OF f3]
    by simp
  then show ?thesis
    using send_field_ok[OF snd1] send_field_ok[OF snd2] send_field_ok[OF snd3]
    by (simp add: written_def)
qed

lemma pqc_keys_agree:
  assumes client: "client_perform_pqc_key_exchange p cskp kkp sc = (Some kc, sc')"
    and server: "server_perform_pqc_key_exchange p sskp coins ss = (Some ks, ss')"
    and to_server: "pending (rx ss) = Some (written sc sc' @ more_s)"
    and to_client: "pending (rx sc) = Some (written ss ss' @ more_c)"
    and kem: "\<forall>ct secret. encap_secret p (fst kkp) coins = Inr (ct, secret)
                \<longrightarrow> decap_secret p (snd kkp) ct = Inr secret"
  shows "kc = ks"
proof -
  note w = client_pqc_written[OF client]
  from to_server w have ps: "pending (rx ss) =
      Some (frame (fst cskp) @ frame (fst kkp) @ frame (sign p (snd cskp) (fst kkp)) @ more_s)"
    by simp
  from server_pqc_fields[OF server ps] w obtain ct secret s1 s2 s3 s4 s5 where
    e: "encap_secret p (fst kkp) coins = Inr (ct, secret)" and ks: "ks = take 32 secret"
    and snd1: "send_field ss (fst sskp) = (Inr (), s1)"
    and f1: "receive_field s1 = (Inr (Some (fst cskp)), s2)"
    and f2: "receive_field s2 = (Inr (Some (fst kkp)), s3)"
    and f3: "receive_field s3 = (Inr (Some (sign p (snd cskp) (fst kkp))), s4)"
    and snd2: "send_field s4 ct = (Inr (), s5)"
    and snd3: "send_field s5 (sign p (snd sskp) ct) = (Inr (), ss')"
    by blast
  have "tx ss' = tx ss @ frame (fst sskp) @ frame ct @ frame (sign p (snd sskp) ct)"
    using send_field_ok[OF snd1] receive_field_tx[OF f1] receive_field_tx[OF f2]
      receive_field_tx[OF f3] send_field_ok[OF snd2] send_field_ok[OF snd3]
    by simp
  then have "written ss ss' = frame (fst sskp) @ frame ct @ frame (sign p (snd sskp) ct)"
    by (simp add: written_def)
  with to_client have pc: "pending (rx sc) =
      Some (frame (fst sskp) @ frame ct @ frame (sign p (snd sskp) ct) @ more_c)"
    by simp
  have len: "length (fst sskp) < 4294967296" "length ct < 4294967296"
    "length (sign p (snd sskp) ct) < 4294967296"
    using send_field_ok[OF snd1] send_field_ok[OF snd2] send_field_ok[OF snd3] by simp_all
  from client_pqc_fields[OF client pc len] obtain secret' where
    "decap_secret p (snd kkp) ct = Inr secret'" "kc = take 32 secret'"
    by blast
  moreover from kem e have "decap_secret p (snd kkp) ct = Inr secret" by blast
  ultimately show ?thesis using ks by simp
qed

lemma classical_keys_agree:
  assumes client: "perform_key_exchange p skc sc = (Some kc, sc')"
    and server: "classical_server_key_exchange p sks ss = (Some ks, ss')"
    and to_server: "pending (rx ss) = Some (written sc sc' @ more_s)"
    and to_client: "pending (rx sc) = Some (written ss ss' @ more_c)"
    and ecdh: "\<forall>pkc pks. load_pem_public_key p (public_bytes p skc) = Inr pkc
                 \<and> load_pem_public_key p (public_bytes p sks) = Inr pks
                \<longrightarrow> exchange p skc pks = exchange p sks pkc"
  shows "kc = ks"
proof -
  from classical_client_success[OF client] obtain pem0 s0 where
    f0: "receive_field sc = (Inr (Some pem0), s0)"
    and snd0: "send_field s0 (public_bytes p skc) = (Inr (), sc')"
    by blast
  have wc: "written sc sc' = frame (public_bytes p skc)"
    and lc: "length (public_bytes p skc) < 4294967296"
    using receive_field_tx[OF f0] send_field_ok[OF snd0] by (simp_all add: written_def)
  from to_server wc have ps: "pending (rx ss) = Some (frame (public_bytes p skc) @ more_s)"
    by simp
  from classical_server_fields[OF server ps lc] obtain pkc secret_s s1 where
    snd1: "send_field ss (public_bytes p sks) = (Inr (), s1)"
    and f1: "receive_field s1 = (Inr (Some (public_bytes p skc)), ss')"
    and lpc: "load_pem_public_key p (public_bytes p skc) = Inr pkc"
    and xs: "exchange p sks pkc = Inr secret_s"
    and ks: "ks = hkdf_derive p 32 handshake_data secret_s"
    by blast
  have ws: "written ss ss' = frame (public_bytes p sks)"
    and ls: "length (public_bytes p sks) < 4294967296"
    using send_field_ok[OF snd1] receive_field_tx[OF f1] by (simp_all add: written_def)
  from to_client ws have pc: "pending (rx sc) = Some (frame (public_bytes p sks) @ more_c)"
    by simp
  from classical_client_fields[OF client pc ls] obtain pks secret_c where
    lps: "load_pem_public_key p (public_bytes p sks) = Inr pks"
    and xc: "exchange p skc pks = Inr secret_c"
    and kc: "kc = hkdf_derive p 32 handshake_data secret_c"
    by blast
  from ecdh lpc lps have "exchange p skc pks = exchange p sks pkc" by blast
  with xc xs have "secret_c = secret_s" by simp
  with kc ks show ?thesis by simp
qed

lemmas run_defs = receive_field_def receive_exact_def recv_def from_bytes_def
  send_field_def sendall_def to_bytes4_def be32_def toy_def written_def

text \<open>
  C1. When client and server both complete a handshake, the key the client derives is
  byte for byte the key the server derives, in the post-quantum and in the classical
  mode, provided the key-agreement primitive is correct. A handshake is a run of the
  client's routine and a run of the server's routine, each returning a key, where each
  side reads the bytes the other side wrote during its run (in any segmentation, and
  possibly followed by more). Correctness of the primitive is, for the KEM, that
  decapsulation with the client's secret key returns the secret that encapsulation to
  the client's public key produced; for ECDH, that the two exchanges of the two key
  pairs give the same result. The classical server is the routine modelled from the
  spec.
\<close>

theorem handshake_keys_identical:
  "(client_perform_pqc_key_exchange p cskp kkp sc = (Some kc, sc')
      \<and> server_perform_pqc_key_exchange p sskp coins ss = (Some ks, ss')
      \<and> pending (rx ss) = Some (written sc sc' @ more_s)
      \<and> pending (rx sc) = Some (written ss ss' @ more_c)
      \<and> (\<forall>ct secret. encap_secret p (fst kkp) coins = Inr (ct, secret)
             \<longrightarrow> decap_secret p (snd kkp) ct = Inr secret)
    \<longrightarrow> kc = ks)
   \<and> (perform_key_exchange p skc tc = (Some kc', tc')
      \<and> classical_server_key_exchange p sks ts = (Some ks', ts')
      \<and> pending (rx ts) = Some (written tc tc' @ more_s')
      \<and> pending (rx tc) = Some (written ts ts' @ more_c')
      \<and> (\<forall>pkc pks. load_pem_public_key p (public_bytes p skc) = Inr pkc
               \<and> load_pem_public_key p (public_bytes p sks) = Inr pks
             \<longrightarrow> exchange p skc pks = exchange p sks pkc)
    \<longrightarrow> kc' = ks')"
  using pqc_keys_agree[of p cskp kkp sc kc sc' sskp coins ss ks ss' more_s more_c]
    classical_keys_agree[of p skc tc kc' tc' sks ts ks' ts' more_s' more_c']
  by blast

theorem handshake_keys_identical_witness:
  "client_perform_pqc_key_exchange toy ([1], [1]) ([2], [2])
      \<lparr>rx = [Data [0, 0, 0, 1, 3], Data [0, 0, 0, 1, 9, 0, 0, 0, 2, 3, 9]], tx = [],
       tx_budget = None, close_raises = False\<rparr>
    = (Some [2, 9],
       \<lparr>rx = [], tx = [0, 0, 0, 1, 1, 0, 0, 0, 1, 2, 0, 0, 0, 2, 1, 2],
        tx_budget = None, close_raises = False\<rparr>)
   \<and> server_perform_pqc_key_exchange toy ([3], [3]) [9]
      \<lparr>rx = [Data [0, 0, 0, 1, 1, 0, 0], Data [0, 1, 2, 0, 0, 0, 2, 1, 2]], tx = [],
       tx_budget = None, close_raises = False\<rparr>
    = (Some [2, 9],
       \<lparr>rx = [], tx = [0, 0, 0, 1, 3, 0, 0, 0, 1, 9, 0, 0, 0, 2, 3, 9],
        tx_budget = None, close_raises = False\<rparr>)
   \<and> fst (perform_key_exchange toy [5]
           \<lparr>rx = [Data [0, 0, 0], Data [1, 6]], tx = [], tx_budget = None,
            close_raises = False\<rparr>)
     = fst (classical_server_key_exchange toy [6]
           \<lparr>rx = [Data [0, 0, 0, 1, 5]], tx = [], tx_budget = None,
            close_raises = False\<rparr>)
   \<and> fst (perform_key_exchange toy [5]
           \<lparr>rx = [Data [0, 0, 0], Data [1, 6]], tx = [], tx_budget = None,
            close_raises = False\<rparr>)
     = Some (handshake_data @ 11 # replicate 17 0)"
proof -
  let ?sc = "\<lparr>rx = [Data [0, 0, 0, 1, 3], Data [0, 0, 0, 1, 9, 0, 0, 0, 2, 3, 9]], tx = [],
              tx_budget = None, close_raises = False\<rparr>"
  let ?sc' = "\<lparr>rx = [], tx = [0, 0, 0, 1, 1, 0, 0, 0, 1, 2, 0, 0, 0, 2, 1, 2],
               tx_budget = None, close_raises = False\<rparr>"
  let ?ss = "\<lparr>rx = [Data [0, 0, 0, 1, 1, 0, 0], Data [0, 1, 2, 0, 0, 0, 2, 1, 2]], tx = [],
              tx_budget = None, close_raises = False\<rparr>"
  let ?ss' = "\<lparr>rx = [], tx = [0, 0, 0, 1, 3, 0, 0, 0, 1, 9, 0, 0, 0, 2, 3, 9],
               tx_budget = None, close_raises = False\<rparr>"
  let ?tc = "\<lparr>rx = [Data [0, 0, 0], Data [1, 6]], tx = [], tx_budget = None,
              close_raises = False\<rparr>"
  let ?tc' = "\<lparr>rx = [], tx = [0, 0, 0, 1, 5], tx_budget = None, close_raises = False\<rparr>"
  let ?ts = "\<lparr>rx = [Data [0, 0, 0, 1, 5]], tx = [], tx_budget = None,
              close_raises = False\<rparr>"
  let ?ts' = "\<lparr>rx = [], tx = [0, 0, 0, 1, 6], tx_budget = None, close_raises = False\<rparr>"
  let ?k = "handshake_data @ 11 # replicate 17 0"
  have c: "client_perform_pqc_key_exchange toy ([1], [1]) ([2], [2]) ?sc = (Some [2, 9], ?sc')"
    by (simp add: client_perform_pqc_key_exchange_def client_perform_pqc_key_exchange_try_def
          run_defs)
  have s: "server_perform_pqc_key_exchange toy ([3], [3]) [9] ?ss = (Some [2, 9], ?ss')"
    by (simp add: server_perform_pqc_key_exchange_def server_perform_pqc_key_exchange_try_def
          run_defs)
  have w1: "pending (rx ?ss) = Some (written ?sc ?sc' @ [])"
    and w2: "pending (rx ?sc) = Some (written ?ss ?ss' @ [])"
    by (simp_all add: written_def)
  have kem: "\<forall>ct secret. encap_secret toy (fst ([2], [2])) [9] = Inr (ct, secret)
               \<longrightarrow> decap_secret toy (snd ([2], [2])) ct = Inr secret"
    by (auto simp: toy_def)
  have tc: "perform_key_exchange toy [5] ?tc = (Some ?k, ?tc')"
    by (simp add: perform_key_exchange_def perform_key_exchange_try_def run_defs
          handshake_data_def)
  have ts: "classical_server_key_exchange toy [6] ?ts = (Some ?k, ?ts')"
    by (simp add: classical_server_key_exchange_def classical_server_key_exchange_try_def
          run_defs handshake_data_def)
  have w3: "pending (rx ?ts) = Some (written ?tc ?tc' @ [])"
    and w4: "pending (rx ?tc) = Some (written ?ts ?ts' @ [])"
    by (simp_all add: written_def)
  have ecdh: "\<forall>pkc pks. load_pem_public_key toy (public_bytes toy [5]) = Inr pkc
               \<and> load_pem_public_key toy (public_bytes toy [6]) = Inr pks
             \<longrightarrow> exchange toy [5] pks = exchange toy [6] pkc"
    by (auto simp: toy_def)
  from handshake_keys_identical
      [where p = toy and cskp = "([1], [1])" and kkp = "([2], [2])" and sc = ?sc
         and kc = "[2, 9]" and sc' = ?sc' and sskp = "([3], [3])" and coins = "[9]"
         and ss = ?ss and ks = "[2, 9]" and ss' = ?ss' and more_s = "[]" and more_c = "[]"
         and skc = "[5]" and tc = ?tc and kc' = ?k and tc' = ?tc' and sks = "[6]"
         and ts = ?ts and ks' = ?k and ts' = ?ts' and more_s' = "[]" and more_c' = "[]"]
    c s w1 w2 kem tc ts w3 w4 ecdh
  show ?thesis by simp
qed

section \<open>Failures of a handshake\<close>

lemma receive_field_short_field:
  "pending (rx s) = Some bs \<Longrightarrow> short_field bs \<Longrightarrow> fst (receive_field s) = Inr None"
  using receive_field_short[of s bs] by (simp add: short_field_def)

lemma classical_client_no_key:
  assumes "(pending (rx s) = Some bs \<and> short_field bs)
         \<or> (pending (rx s) = Some (frame pem @ rest) \<and> length pem < 4294967296
             \<and> (\<exists>e. load_pem_public_key p pem = Inl e))
         \<or> (pending (rx s) = Some (frame pem @ rest) \<and> length pem < 4294967296
             \<and> (\<exists>pk e. load_pem_public_key p pem = Inr pk \<and> exchange p sk pk = Inl e))"
  shows "fst (perform_key_exchange p sk s) = None"
proof (rule no_key_if)
  fix key s'
  assume run: "perform_key_exchange p sk s = (Some key, s')"
  from assms consider
      (short) "pending (rx s) = Some bs" "short_field bs"
    | (load) e where "pending (rx s) = Some (frame pem @ rest)" "length pem < 4294967296"
        "load_pem_public_key p pem = Inl e"
    | (exch) pk e where "pending (rx s) = Some (frame pem @ rest)" "length pem < 4294967296"
        "load_pem_public_key p pem = Inr pk" "exchange p sk pk = Inl e"
    by blast
  then show False
  proof cases
    case short
    from classical_client_success[OF run] receive_field_short_field[OF short]
    show False by auto
  next
    case load
    from classical_client_fields[OF run load(1,2)] load(3) show False by auto
  next
    case exch
    from classical_client_fields[OF run exch(1,2)] exch(3,4) show False by auto
  qed
qed

lemma client_pqc_no_key:
  assumes len: "length k < 4294967296" "length ct < 4294967296" "length sg < 4294967296"
    and "(pending (rx s) = Some bs \<and> short_field bs)
       \<or> (pending (rx s) = Some (frame k @ bs) \<and> short_field bs)
       \<or> (pending (rx s) = Some (frame k @ frame ct @ bs) \<and> short_field bs)
       \<or> (pending (rx s) = Some (frame k @ frame ct @ frame sg @ rest)
           \<and> \<not> verify p ct sg k)
       \<or> (pending (rx s) = Some (frame k @ frame ct @ frame sg @ rest)
           \<and> (\<exists>e. decap_secret p (snd kkp) ct = Inl e))"
  shows "fst (client_perform_pqc_key_exchange p skp kkp s) = None"
proof (rule no_key_if)
  fix key s'
  assume run: "client_perform_pqc_key_exchange p skp kkp s = (Some key, s')"
  from client_pqc_success[OF run] obtain k' ct' sg' s1 s2 s3 s4 s5 where
    f1: "receive_field s = (Inr (Some k'), s1)"
    and snd1: "send_field s1 (fst skp) = (Inr (), s2)"
    and snd2: "send_field s2 (fst kkp) = (Inr (), s3)"
    and snd3: "send_field s3 (sign p (snd skp) (fst kkp)) = (Inr (), s4)"
    and f2: "receive_field s4 = (Inr (Some ct'), s5)"
    and f3: "receive_field s5 = (Inr (Some sg'), s')"
    by blast
  have rx4: "rx s4 = rx s1"
    using send_field_rx[OF snd1] send_field_rx[OF snd2] send_field_rx[OF snd3] by simp
  from assms(4) consider
      (short1) "pending (rx s) = Some bs" "short_field bs"
    | (short2) "pending (rx s) = Some (frame k @ bs)" "short_field bs"
    | (short3) "pending (rx s) = Some (frame k @ frame ct @ bs)" "short_field bs"
    | (sig) "pending (rx s) = Some (frame k @ frame ct @ frame sg @ rest)"
        "\<not> verify p ct sg k"
    | (decap) e where "pending (rx s) = Some (frame k @ frame ct @ frame sg @ rest)"
        "decap_secret p (snd kkp) ct = Inl e"
    by blast
  then show False
  proof cases
    case short1
    from receive_field_short_field[OF short1] f1 show False by simp
  next
    case short2
    from receive_field_frame_det[OF short2(1) len(1) f1]
    have "pending (rx s4) = Some bs" by (simp add: rx4)
    from receive_field_short_field[OF this short2(2)] f2 show False by simp
  next
    case short3
    from receive_field_frame_det[OF short3(1) len(1) f1]
    have "pending (rx s4) = Some (frame ct @ bs)" by (simp add: rx4)
    from receive_field_frame_det[OF this len(2) f2]
    have "pending (rx s5) = Some bs" by simp
    from receive_field_short_field[OF this short3(2)] f3 show False by simp
  next
    case sig
    from client_pqc_fields[OF run sig(1) len] sig(2) show False by blast
  next
    case decap
    from client_pqc_fields[OF run decap(1) len] decap(2) show False by auto
  qed
qed

lemma server_pqc_no_key:
  assumes "length k < 4294967296" "length kem < 4294967296" "length sg < 4294967296"
    and "pending (rx s) = Some (frame k @ frame kem @ frame sg @ rest)"
    and "\<not> verify p kem sg k"
  shows "fst (server_perform_pqc_key_exchange p skp coins s) = None"
proof (rule no_key_if)
  fix key s'
  assume run: "server_perform_pqc_key_exchange p skp coins s = (Some key, s')"
  from server_pqc_fields[OF run assms(4) assms(1-3)] assms(5) show False by blast
qed

lemma handle_client_no_key:
  "fst (server_perform_pqc_key_exchange p skp coins s) = None \<Longrightarrow>
     handle_client p skp coins srv s = (srv, snd (server_perform_pqc_key_exchange p skp coins s))"
  by (cases "server_perform_pqc_key_exchange p skp coins s") (simp add: handle_client_def)

lemma connect_no_listener:
  "net (host c, port c) = None \<Longrightarrow>
     connect kx net c = Inr (False, c\<lparr>connected := False, client_socket := None, aesgcm := None\<rparr>)"
  by (simp add: connect_def connect_try_def disconnect_eq)

lemma connect_no_key:
  "net (host c, port c) = Some s \<Longrightarrow> fst (kx s) = None \<Longrightarrow>
     connect kx net c = Inr (False, c\<lparr>connected := False, client_socket := None, aesgcm := None\<rparr>)"
  by (cases "kx s") (simp add: connect_def connect_try_def disconnect_eq Let_def)

lemma connect_cases:
  "connect kx net c = Inr (False, c\<lparr>connected := False, client_socket := None, aesgcm := None\<rparr>)
   \<or> (\<exists>s key s'. net (host c, port c) = Some s \<and> kx s = (Some key, s') \<and> key \<noteq> []
         \<and> AESGCM key = Inr key
         \<and> connect kx net c =
             Inr (True, c\<lparr>client_socket := Some s', aesgcm := Some key, connected := True\<rparr>))"
proof (cases "net (host c, port c)")
  case None
  then show ?thesis by (simp add: connect_no_listener)
next
  case (Some s)
  obtain r s' where kx: "kx s = (r, s')" by (cases "kx s")
  show ?thesis
    using Some kx
    by (cases r) (auto simp: connect_def connect_try_def disconnect_eq Let_def AESGCM_def)
qed

text \<open>
  C2. In the post-quantum handshake a signature that does not verify is a hard abort.
  Server: when the client's signature over its KEM public key does not verify against
  the signature key the client sent, the server's key exchange returns no key, and
  \<open>_handle_client\<close> returns with the server as it was, having opened no channel.
  Client: when the server's signature over the ciphertext does not verify against the
  signature key the server sent, the client's key exchange returns no key, \<open>connect\<close>
  returns \<open>False\<close>, and the client it leaves has \<open>connected = False\<close> and no cipher.
  The three fields are the ones on the wire, of any length that fits the four bytes.
\<close>

theorem signature_failure_is_hard_abort:
  "(length k < 4294967296 \<and> length kem < 4294967296 \<and> length sg < 4294967296
      \<and> pending (rx s) = Some (frame k @ frame kem @ frame sg @ rest)
      \<and> \<not> verify p kem sg k
    \<longrightarrow> fst (server_perform_pqc_key_exchange p sskp coins s) = None
        \<and> fst (handle_client p sskp coins srv s) = srv)
   \<and> (length k' < 4294967296 \<and> length ct < 4294967296 \<and> length sg' < 4294967296
      \<and> pending (rx t) = Some (frame k' @ frame ct @ frame sg' @ rest')
      \<and> \<not> verify p ct sg' k'
      \<and> net (host c, port c) = Some t
    \<longrightarrow> fst (client_perform_pqc_key_exchange p cskp kkp t) = None
        \<and> pqc_connect p cskp kkp net c
            = Inr (False, c\<lparr>connected := False, client_socket := None, aesgcm := None\<rparr>)
        \<and> connected (c\<lparr>connected := False, client_socket := None, aesgcm := None\<rparr>)
            = False)"
proof (intro conjI impI)
  assume h: "length k < 4294967296 \<and> length kem < 4294967296 \<and> length sg < 4294967296
      \<and> pending (rx s) = Some (frame k @ frame kem @ frame sg @ rest)
      \<and> \<not> verify p kem sg k"
  then show none: "fst (server_perform_pqc_key_exchange p sskp coins s) = None"
    using server_pqc_no_key[of k kem sg s rest p sskp coins] by blast
  show "fst (handle_client p sskp coins srv s) = srv"
    using handle_client_no_key[OF none] by simp
next
  assume h: "length k' < 4294967296 \<and> length ct < 4294967296 \<and> length sg' < 4294967296
      \<and> pending (rx t) = Some (frame k' @ frame ct @ frame sg' @ rest')
      \<and> \<not> verify p ct sg' k'
      \<and> net (host c, port c) = Some t"
  then show none: "fst (client_perform_pqc_key_exchange p cskp kkp t) = None"
    using client_pqc_no_key[of k' ct sg' t _ rest' p kkp cskp] by blast
  from h have "net (host c, port c) = Some t" by blast
  from connect_no_key[of net c t "client_perform_pqc_key_exchange p cskp kkp", OF this none]
  show "pqc_connect p cskp kkp net c
            = Inr (False, c\<lparr>connected := False, client_socket := None, aesgcm := None\<rparr>)"
    by (simp add: pqc_connect_def)
  show "connected (c\<lparr>connected := False, client_socket := None, aesgcm := None\<rparr>) = False"
    by simp
qed

theorem signature_failure_is_hard_abort_witness:
  "fst (server_perform_pqc_key_exchange toy ([3], [3]) [9]
          \<lparr>rx = [Data [0, 0, 0, 1, 1, 0, 0, 0, 1, 2, 0, 0, 0, 2, 7, 7]], tx = [],
           tx_budget = None, close_raises = False\<rparr>) = None
   \<and> fst (handle_client toy ([3], [3]) [9]
          \<lparr>running = True, last_received_message = None, lock_held = False,
           message_received_event = None, trace = []\<rparr>
          \<lparr>rx = [Data [0, 0, 0, 1, 1, 0, 0, 0, 1, 2, 0, 0, 0, 2, 7, 7]], tx = [],
           tx_budget = None, close_raises = False\<rparr>)
      = \<lparr>running = True, last_received_message = None, lock_held = False,
           message_received_event = None, trace = []\<rparr>
   \<and> fst (client_perform_pqc_key_exchange toy ([1], [1]) ([2], [2])
          \<lparr>rx = [Data [0, 0, 0, 1, 3, 0, 0, 0, 1, 9, 0, 0, 0, 1, 0]], tx = [],
           tx_budget = None, close_raises = False\<rparr>) = None
   \<and> pqc_connect toy ([1], [1]) ([2], [2])
        (\<lambda>a. if a = (''localhost'', 12346)
              then Some \<lparr>rx = [Data [0, 0, 0, 1, 3, 0, 0, 0, 1, 9, 0, 0, 0, 1, 0]], tx = [],
                          tx_budget = None, close_raises = False\<rparr>
              else None)
        (new_client ''localhost'' 12346)
      = Inr (False, new_client ''localhost'' 12346)"
  using signature_failure_is_hard_abort
    [where k = "[1]" and kem = "[2]" and sg = "[7, 7]" and rest = "[]" and p = toy
       and s = "\<lparr>rx = [Data [0, 0, 0, 1, 1, 0, 0, 0, 1, 2, 0, 0, 0, 2, 7, 7]], tx = [],
                  tx_budget = None, close_raises = False\<rparr>"
       and sskp = "([3], [3])" and coins = "[9]"
       and srv = "\<lparr>running = True, last_received_message = None, lock_held = False,
                    message_received_event = None, trace = []\<rparr>"
       and k' = "[3]" and ct = "[9]" and sg' = "[0]" and rest' = "[]"
       and t = "\<lparr>rx = [Data [0, 0, 0, 1, 3, 0, 0, 0, 1, 9, 0, 0, 0, 1, 0]], tx = [],
                  tx_budget = None, close_raises = False\<rparr>"
       and net = "\<lambda>a. if a = (''localhost'', 12346)
              then Some \<lparr>rx = [Data [0, 0, 0, 1, 3, 0, 0, 0, 1, 9, 0, 0, 0, 1, 0]], tx = [],
                          tx_budget = None, close_raises = False\<rparr>
              else None"
       and c = "new_client ''localhost'' 12346" and cskp = "([1], [1])"
       and kkp = "([2], [2])"]
  by (simp add: frame_def be32_def toy_def new_client_def)

text \<open>
  C7. \<open>connect\<close> of \<open>ClassicalClient\<close> and of \<open>PQCClient\<close> never raises, and whenever
  it returns \<open>False\<close> the client has \<open>connected = False\<close>, \<open>aesgcm = None\<close> and no socket.
  It returns \<open>False\<close> at every stage that can fail: when nobody listens on the port;
  when the stream ends inside a field (the first one, or for the post-quantum client
  also the second or third); when the server's public key does not deserialise; when the
  signature does not verify; when the shared secret cannot be computed (the ECDH
  exchange or the decapsulation raises).
\<close>

theorem failed_connect_keeps_nothing:
  "(\<exists>r. classical_connect p sk net c = Inr r)
   \<and> (\<exists>r. pqc_connect p skp kkp net c = Inr r)
   \<and> (classical_connect p sk net c = Inr (False, c')
        \<or> pqc_connect p skp kkp net c = Inr (False, c')
      \<longrightarrow> connected c' = False \<and> aesgcm c' = None \<and> client_socket c' = None)
   \<and> (net (host c, port c) = None
      \<longrightarrow> classical_connect p sk net c
            = Inr (False, c\<lparr>connected := False, client_socket := None, aesgcm := None\<rparr>)
        \<and> pqc_connect p skp kkp net c
            = Inr (False, c\<lparr>connected := False, client_socket := None, aesgcm := None\<rparr>))
   \<and> (net (host c, port c) = Some s
        \<and> ((pending (rx s) = Some bs \<and> short_field bs)
           \<or> (pending (rx s) = Some (frame pem @ rest) \<and> length pem < 4294967296
               \<and> (\<exists>e. load_pem_public_key p pem = Inl e))
           \<or> (pending (rx s) = Some (frame pem @ rest) \<and> length pem < 4294967296
               \<and> (\<exists>pk e. load_pem_public_key p pem = Inr pk \<and> exchange p sk pk = Inl e)))
      \<longrightarrow> classical_connect p sk net c
            = Inr (False, c\<lparr>connected := False, client_socket := None, aesgcm := None\<rparr>))
   \<and> (net (host c, port c) = Some s
        \<and> length k < 4294967296 \<and> length ct < 4294967296 \<and> length sg < 4294967296
        \<and> ((pending (rx s) = Some bs \<and> short_field bs)
           \<or> (pending (rx s) = Some (frame k @ bs) \<and> short_field bs)
           \<or> (pending (rx s) = Some (frame k @ frame ct @ bs) \<and> short_field bs)
           \<or> (pending (rx s) = Some (frame k @ frame ct @ frame sg @ rest)
               \<and> \<not> verify p ct sg k)
           \<or> (pending (rx s) = Some (frame k @ frame ct @ frame sg @ rest)
               \<and> (\<exists>e. decap_secret p (snd kkp) ct = Inl e)))
      \<longrightarrow> pqc_connect p skp kkp net c
            = Inr (False, c\<lparr>connected := False, client_socket := None, aesgcm := None\<rparr>))"
proof -
  let ?cleared = "c\<lparr>connected := False, client_socket := None, aesgcm := None\<rparr>"
  note cc = connect_cases[of "perform_key_exchange p sk" net c]
  note pc = connect_cases[of "client_perform_pqc_key_exchange p skp kkp" net c]
  have total: "(\<exists>r. classical_connect p sk net c = Inr r)
      \<and> (\<exists>r. pqc_connect p skp kkp net c = Inr r)"
    using cc pc unfolding classical_connect_def pqc_connect_def by auto
  have false_state: "connected c' = False \<and> aesgcm c' = None \<and> client_socket c' = None"
    if "classical_connect p sk net c = Inr (False, c')
        \<or> pqc_connect p skp kkp net c = Inr (False, c')"
    using that cc pc unfolding classical_connect_def pqc_connect_def by auto
  have no_listener: "classical_connect p sk net c = Inr (False, ?cleared)
      \<and> pqc_connect p skp kkp net c = Inr (False, ?cleared)"
    if "net (host c, port c) = None"
    using that by (simp add: classical_connect_def pqc_connect_def connect_no_listener)
  have classical: "classical_connect p sk net c = Inr (False, ?cleared)"
    if "net (host c, port c) = Some s
        \<and> ((pending (rx s) = Some bs \<and> short_field bs)
           \<or> (pending (rx s) = Some (frame pem @ rest) \<and> length pem < 4294967296
               \<and> (\<exists>e. load_pem_public_key p pem = Inl e))
           \<or> (pending (rx s) = Some (frame pem @ rest) \<and> length pem < 4294967296
               \<and> (\<exists>pk e. load_pem_public_key p pem = Inr pk \<and> exchange p sk pk = Inl e)))"
  proof -
    from that have n: "net (host c, port c) = Some s" by blast
    from that have "fst (perform_key_exchange p sk s) = None"
      by (intro classical_client_no_key[of s bs pem rest p sk]) blast
    from connect_no_key[of net c s "perform_key_exchange p sk", OF n this]
    show ?thesis by (simp add: classical_connect_def)
  qed
  have pqc: "pqc_connect p skp kkp net c = Inr (False, ?cleared)"
    if "net (host c, port c) = Some s
        \<and> length k < 4294967296 \<and> length ct < 4294967296 \<and> length sg < 4294967296
        \<and> ((pending (rx s) = Some bs \<and> short_field bs)
           \<or> (pending (rx s) = Some (frame k @ bs) \<and> short_field bs)
           \<or> (pending (rx s) = Some (frame k @ frame ct @ bs) \<and> short_field bs)
           \<or> (pending (rx s) = Some (frame k @ frame ct @ frame sg @ rest)
               \<and> \<not> verify p ct sg k)
           \<or> (pending (rx s) = Some (frame k @ frame ct @ frame sg @ rest)
               \<and> (\<exists>e. decap_secret p (snd kkp) ct = Inl e)))"
  proof -
    from that have n: "net (host c, port c) = Some s" by blast
    from that have "fst (client_perform_pqc_key_exchange p skp kkp s) = None"
      by (intro client_pqc_no_key[of k ct sg s bs rest p kkp skp]) blast+
    from connect_no_key[of net c s "client_perform_pqc_key_exchange p skp kkp", OF n this]
    show ?thesis by (simp add: pqc_connect_def)
  qed
  from total false_state no_listener classical pqc show ?thesis by blast
qed


theorem failed_connect_keeps_nothing_witness:
  "classical_connect toy [5] (\<lambda>a. None) (new_client ''localhost'' 19999)
     = Inr (False, new_client ''localhost'' 19999)
   \<and> pqc_connect toy ([1], [1]) ([2], [2]) (\<lambda>a. None) (new_client ''localhost'' 19998)
     = Inr (False, new_client ''localhost'' 19998)
   \<and> classical_connect toy [5]
        (\<lambda>a. Some \<lparr>rx = [Data [0, 0, 0, 1, 255]], tx = [], tx_budget = None,
                     close_raises = False\<rparr>)
        (new_client ''localhost'' 12345)
     = Inr (False, new_client ''localhost'' 12345)
   \<and> classical_connect toy [5]
        (\<lambda>a. Some \<lparr>rx = [Data [0, 0, 0, 2, 1, 2]], tx = [], tx_budget = None,
                     close_raises = False\<rparr>)
        (new_client ''localhost'' 12345)
     = Inr (False, new_client ''localhost'' 12345)
   \<and> classical_connect toy [5]
        (\<lambda>a. Some \<lparr>rx = [Data [0, 0, 0, 9, 1, 2]], tx = [], tx_budget = None,
                     close_raises = True\<rparr>)
        (new_client ''localhost'' 12345)
     = Inr (False, new_client ''localhost'' 12345)
   \<and> pqc_connect toy ([1], [1]) ([2], [2])
        (\<lambda>a. Some \<lparr>rx = [Data [0, 0, 0, 1, 3, 0, 0]], tx = [], tx_budget = None,
                     close_raises = False\<rparr>)
        (new_client ''localhost'' 12346)
     = Inr (False, new_client ''localhost'' 12346)
   \<and> pqc_connect toy ([1], [1]) ([2], [2])
        (\<lambda>a. Some \<lparr>rx = [Data [0, 0, 0, 1, 3, 0, 0, 0, 1, 9, 0, 0, 0, 1, 0]], tx = [],
                     tx_budget = None, close_raises = False\<rparr>)
        (new_client ''localhost'' 12346)
     = Inr (False, new_client ''localhost'' 12346)"
proof -
  let ?c = "new_client ''localhost'' 12345" and ?q = "new_client ''localhost'' 12346"
  let ?s1 = "\<lparr>rx = [Data [0, 0, 0, 1, 255]], tx = [], tx_budget = None,
               close_raises = False\<rparr>"
  let ?s2 = "\<lparr>rx = [Data [0, 0, 0, 2, 1, 2]], tx = [], tx_budget = None,
               close_raises = False\<rparr>"
  let ?s3 = "\<lparr>rx = [Data [0, 0, 0, 9, 1, 2]], tx = [], tx_budget = None,
               close_raises = True\<rparr>"
  let ?s4 = "\<lparr>rx = [Data [0, 0, 0, 1, 3, 0, 0]], tx = [], tx_budget = None,
               close_raises = False\<rparr>"
  let ?s5 = "\<lparr>rx = [Data [0, 0, 0, 1, 3, 0, 0, 0, 1, 9, 0, 0, 0, 1, 0]], tx = [],
               tx_budget = None, close_raises = False\<rparr>"
  have a: "classical_connect toy [5] (\<lambda>a. None) (new_client ''localhost'' 19999)
             = Inr (False, new_client ''localhost'' 19999)"
    using failed_connect_keeps_nothing
      [where p = toy and sk = "[5]" and net = "\<lambda>a. None"
         and c = "new_client ''localhost'' 19999"]
    by (simp add: new_client_def)
  have b: "pqc_connect toy ([1], [1]) ([2], [2]) (\<lambda>a. None) (new_client ''localhost'' 19998)
             = Inr (False, new_client ''localhost'' 19998)"
    using failed_connect_keeps_nothing
      [where p = toy and skp = "([1], [1])" and kkp = "([2], [2])" and net = "\<lambda>a. None"
         and c = "new_client ''localhost'' 19998"]
    by (simp add: new_client_def)
  have c: "classical_connect toy [5] (\<lambda>a. Some ?s1) ?c = Inr (False, ?c)"
    using failed_connect_keeps_nothing
      [where p = toy and sk = "[5]" and net = "\<lambda>a. Some ?s1" and c = ?c and s = ?s1
         and pem = "[255]" and rest = "[]" and bs = "[]"]
    by (simp add: new_client_def frame_def be32_def toy_def)
  have d: "classical_connect toy [5] (\<lambda>a. Some ?s2) ?c = Inr (False, ?c)"
    using failed_connect_keeps_nothing
      [where p = toy and sk = "[5]" and net = "\<lambda>a. Some ?s2" and c = ?c and s = ?s2
         and pem = "[1, 2]" and rest = "[]" and bs = "[]"]
    by (simp add: new_client_def frame_def be32_def toy_def)
  have e: "classical_connect toy [5] (\<lambda>a. Some ?s3) ?c = Inr (False, ?c)"
    using failed_connect_keeps_nothing
      [where p = toy and sk = "[5]" and net = "\<lambda>a. Some ?s3" and c = ?c and s = ?s3
         and pem = "[]" and rest = "[]" and bs = "[0, 0, 0, 9, 1, 2]"]
    by (simp add: new_client_def short_field_def from_bytes_def)
  have f: "pqc_connect toy ([1], [1]) ([2], [2]) (\<lambda>a. Some ?s4) ?q = Inr (False, ?q)"
    using failed_connect_keeps_nothing
      [where p = toy and skp = "([1], [1])" and kkp = "([2], [2])"
         and net = "\<lambda>a. Some ?s4" and c = ?q and s = ?s4
         and k = "[3]" and ct = "[]" and sg = "[]" and rest = "[]" and bs = "[0, 0]"]
    by (simp add: new_client_def short_field_def frame_def be32_def)
  have g: "pqc_connect toy ([1], [1]) ([2], [2]) (\<lambda>a. Some ?s5) ?q = Inr (False, ?q)"
    using failed_connect_keeps_nothing
      [where p = toy and skp = "([1], [1])" and kkp = "([2], [2])"
         and net = "\<lambda>a. Some ?s5" and c = ?q and s = ?s5
         and k = "[3]" and ct = "[9]" and sg = "[0]" and rest = "[]" and bs = "[]"]
    by (simp add: new_client_def frame_def be32_def toy_def)
  from a b c d e f g show ?thesis by blast
qed

section \<open>How the key is derived\<close>

lemma connect_True:
  "connect kx net c = Inr (True, c') \<Longrightarrow>
     \<exists>s. net (host c, port c) = Some s \<and> aesgcm c' = fst (kx s) \<and> connected c'"
  using connect_cases[of kx net c] by auto

lemma handle_client_key:
  "server_perform_pqc_key_exchange p skp coins s = (Some key, s') \<Longrightarrow> length key = 32 \<Longrightarrow>
     handle_client p skp coins srv s = serve_loop p key srv s'"
  by (auto simp: handle_client_def AESGCM_def)

text \<open>
  C3, as stated: in either mode the raw shared secret goes through a key-derivation step
  with a fixed label that yields exactly 32 bytes, the AEAD key. The post-quantum
  routines call no key derivation: \<open>aes_key = shared_secret[:32]\<close>. In the run below
  the KEM secret has 32 bytes, the key the client returns is that secret itself, and
  deriving from it with the label of the classical mode gives other bytes.
\<close>

theorem pqc_key_is_raw_secret_counterexample:
  "client_perform_pqc_key_exchange toy ([1], [1]) ([2], [2])
     \<lparr>rx = [Data 
          [0, 0, 0, 1, 3, 0, 0, 0, 31, 1, 2, 3, 4, 5, 6, 7, 8, 9, 10, 11, 12, 13,
          14, 15, 16, 17, 18, 19, 20, 21, 22, 23, 24, 25, 26, 27, 28, 29, 30, 31, 0,
          0, 0, 32, 3, 1, 2, 3, 4, 5, 6, 7, 8, 9, 10, 11, 12, 13, 14, 15, 16, 17,
          18, 19, 20, 21, 22, 23, 24, 25, 26, 27, 28, 29, 30, 31]], tx = [], tx_budget = None, close_raises = False\<rparr>
   = (Some 
        [2, 1, 2, 3, 4, 5, 6, 7, 8, 9, 10, 11, 12, 13, 14, 15, 16, 17, 18, 19, 20,
        21, 22, 23, 24, 25, 26, 27, 28, 29, 30, 31],
      \<lparr>rx = [], tx = [0, 0, 0, 1, 1, 0, 0, 0, 1, 2, 0, 0, 0, 2, 1, 2],
       tx_budget = None, close_raises = False\<rparr>)
   \<and> decap_secret toy [2] 
        [1, 2, 3, 4, 5, 6, 7, 8, 9, 10, 11, 12, 13, 14, 15, 16, 17, 18, 19, 20, 21,
        22, 23, 24, 25, 26, 27, 28, 29, 30, 31] = Inr 
        [2, 1, 2, 3, 4, 5, 6, 7, 8, 9, 10, 11, 12, 13, 14, 15, 16, 17, 18, 19, 20,
        21, 22, 23, 24, 25, 26, 27, 28, 29, 30, 31]
   \<and> hkdf_derive toy 32 handshake_data 
        [2, 1, 2, 3, 4, 5, 6, 7, 8, 9, 10, 11, 12, 13, 14, 15, 16, 17, 18, 19, 20,
        21, 22, 23, 24, 25, 26, 27, 28, 29, 30, 31] \<noteq> 
        [2, 1, 2, 3, 4, 5, 6, 7, 8, 9, 10, 11, 12, 13, 14, 15, 16, 17, 18, 19, 20,
        21, 22, 23, 24, 25, 26, 27, 28, 29, 30, 31]"
  by (simp add: client_perform_pqc_key_exchange_def client_perform_pqc_key_exchange_try_def
        run_defs handshake_data_def)


text \<open>
  C3, amended. In the classical mode the client passes the raw ECDH secret through the
  HKDF with the fixed label \<open>handshake data\<close> and length 32, and the result is the key;
  it has 32 bytes when the HKDF returns the length it is asked for. In the post-quantum
  mode no key derivation and no label are applied: client and server each take the
  first 32 bytes of the raw KEM secret as the key, which has exactly 32 bytes when the
  secret has at least 32. In both modes that key is the key of the AEAD cipher:
  \<open>connect\<close> stores the cipher of the key its key exchange returned, and
  \<open>_handle_client\<close> runs the reception loop with the cipher of the server's key.
\<close>

theorem key_derivation_by_mode:
  "(perform_key_exchange p sk s = (Some key, s') \<longrightarrow>
      (\<exists>pem pk secret. load_pem_public_key p pem = Inr pk \<and> exchange p sk pk = Inr secret
          \<and> key = hkdf_derive p 32 handshake_data secret)
      \<and> ((\<forall>info x. length (hkdf_derive p 32 info x) = 32) \<longrightarrow> length key = 32))
   \<and> (client_perform_pqc_key_exchange p cskp kkp t = (Some key', t') \<longrightarrow>
      (\<exists>ct secret. decap_secret p (snd kkp) ct = Inr secret \<and> key' = take 32 secret
          \<and> (32 \<le> length secret \<longrightarrow> length key' = 32)))
   \<and> (server_perform_pqc_key_exchange p sskp coins u = (Some key'', u') \<longrightarrow>
      (\<exists>kem ct secret. encap_secret p kem coins = Inr (ct, secret) \<and> key'' = take 32 secret
          \<and> (32 \<le> length secret \<longrightarrow> length key'' = 32)))
   \<and> (classical_connect p sk net c = Inr (True, c') \<longrightarrow>
      (\<exists>s. net (host c, port c) = Some s \<and> aesgcm c' = fst (perform_key_exchange p sk s)))
   \<and> (pqc_connect p cskp kkp net c = Inr (True, c'') \<longrightarrow>
      (\<exists>s. net (host c, port c) = Some s
          \<and> aesgcm c'' = fst (client_perform_pqc_key_exchange p cskp kkp s)))
   \<and> (server_perform_pqc_key_exchange p sskp coins u = (Some key'', u') \<and> length key'' = 32
      \<longrightarrow> handle_client p sskp coins srv u = serve_loop p key'' srv u')"
proof (intro conjI impI)
  assume run: "perform_key_exchange p sk s = (Some key, s')"
  from classical_client_success[OF run]
  show "\<exists>pem pk secret. load_pem_public_key p pem = Inr pk \<and> exchange p sk pk = Inr secret
          \<and> key = hkdf_derive p 32 handshake_data secret"
    by blast
  assume "\<forall>info x. length (hkdf_derive p 32 info x) = 32"
  with classical_client_success[OF run] show "length key = 32" by auto
next
  assume run: "client_perform_pqc_key_exchange p cskp kkp t = (Some key', t')"
  from client_pqc_success[OF run] obtain ct secret where
    "decap_secret p (snd kkp) ct = Inr secret" "key' = take 32 secret" by blast
  then have "decap_secret p (snd kkp) ct = Inr secret \<and> key' = take 32 secret
          \<and> (32 \<le> length secret \<longrightarrow> length key' = 32)"
    by simp
  then show "\<exists>ct secret. decap_secret p (snd kkp) ct = Inr secret \<and> key' = take 32 secret
          \<and> (32 \<le> length secret \<longrightarrow> length key' = 32)"
    by blast
next
  assume run: "server_perform_pqc_key_exchange p sskp coins u = (Some key'', u')"
  from server_pqc_success[OF run] obtain kem ct secret where
    "encap_secret p kem coins = Inr (ct, secret)" "key'' = take 32 secret" by blast
  then have "encap_secret p kem coins = Inr (ct, secret)
          \<and> key'' = take 32 secret \<and> (32 \<le> length secret \<longrightarrow> length key'' = 32)"
    by simp
  then show "\<exists>kem ct secret. encap_secret p kem coins = Inr (ct, secret)
          \<and> key'' = take 32 secret \<and> (32 \<le> length secret \<longrightarrow> length key'' = 32)"
    by blast
next
  assume "classical_connect p sk net c = Inr (True, c')"
  then show "\<exists>s. net (host c, port c) = Some s \<and> aesgcm c' = fst (perform_key_exchange p sk s)"
    using connect_True[of "perform_key_exchange p sk" net c c']
    by (auto simp: classical_connect_def)
next
  assume "pqc_connect p cskp kkp net c = Inr (True, c'')"
  then show "\<exists>s. net (host c, port c) = Some s
          \<and> aesgcm c'' = fst (client_perform_pqc_key_exchange p cskp kkp s)"
    using connect_True[of "client_perform_pqc_key_exchange p cskp kkp" net c c'']
    by (auto simp: pqc_connect_def)
next
  assume "server_perform_pqc_key_exchange p sskp coins u = (Some key'', u') \<and> length key'' = 32"
  then show "handle_client p sskp coins srv u = serve_loop p key'' srv u'"
    using handle_client_key by blast
qed

theorem key_derivation_by_mode_witness:
  "perform_key_exchange toy [5]
       \<lparr>rx = [Data [0, 0, 0], Data [1, 6]], tx = [], tx_budget = None, close_raises = False\<rparr>
     = (Some (hkdf_derive toy 32 handshake_data [11]),
        \<lparr>rx = [], tx = [0, 0, 0, 1, 5], tx_budget = None, close_raises = False\<rparr>)
   \<and> length (hkdf_derive toy 32 handshake_data [11]) = 32
   \<and> fst (client_perform_pqc_key_exchange toy ([1], [1]) ([2], [2])
            \<lparr>rx = [Data 
          [0, 0, 0, 1, 3, 0, 0, 0, 31, 1, 2, 3, 4, 5, 6, 7, 8, 9, 10, 11, 12, 13,
          14, 15, 16, 17, 18, 19, 20, 21, 22, 23, 24, 25, 26, 27, 28, 29, 30, 31, 0,
          0, 0, 32, 3, 1, 2, 3, 4, 5, 6, 7, 8, 9, 10, 11, 12, 13, 14, 15, 16, 17,
          18, 19, 20, 21, 22, 23, 24, 25, 26, 27, 28, 29, 30, 31]], tx = [], tx_budget = None, close_raises = False\<rparr>)
     = Some (take 32 
        [2, 1, 2, 3, 4, 5, 6, 7, 8, 9, 10, 11, 12, 13, 14, 15, 16, 17, 18, 19, 20,
        21, 22, 23, 24, 25, 26, 27, 28, 29, 30, 31])
   \<and> fst (server_perform_pqc_key_exchange toy ([3], [3]) 
        [1, 2, 3, 4, 5, 6, 7, 8, 9, 10, 11, 12, 13, 14, 15, 16, 17, 18, 19, 20, 21,
        22, 23, 24, 25, 26, 27, 28, 29, 30, 31]
            \<lparr>rx = [Data [0, 0, 0, 1, 1, 0, 0, 0, 1, 2, 0, 0, 0, 2, 1, 2]], tx = [],
             tx_budget = None, close_raises = False\<rparr>)
     = Some (take 32 
        [2, 1, 2, 3, 4, 5, 6, 7, 8, 9, 10, 11, 12, 13, 14, 15, 16, 17, 18, 19, 20,
        21, 22, 23, 24, 25, 26, 27, 28, 29, 30, 31])
   \<and> length (take 32 
        [2, 1, 2, 3, 4, 5, 6, 7, 8, 9, 10, 11, 12, 13, 14, 15, 16, 17, 18, 19, 20,
        21, 22, 23, 24, 25, 26, 27, 28, 29, 30, 31]) = 32
   \<and> classical_connect toy [5]
        (\<lambda>a. Some \<lparr>rx = [Data [0, 0, 0], Data [1, 6]], tx = [], tx_budget = None,
                     close_raises = False\<rparr>)
        (new_client ''localhost'' 12345)
     = Inr (True,
            \<lparr>host = ''localhost'', port = 12345,
             client_socket = Some \<lparr>rx = [], tx = [0, 0, 0, 1, 5], tx_budget = None,
                                    close_raises = False\<rparr>,
             aesgcm = Some (hkdf_derive toy 32 handshake_data [11]), connected = True\<rparr>)
   \<and> pqc_connect toy ([1], [1]) ([2], [2])
        (\<lambda>a. Some \<lparr>rx = [Data 
          [0, 0, 0, 1, 3, 0, 0, 0, 31, 1, 2, 3, 4, 5, 6, 7, 8, 9, 10, 11, 12, 13,
          14, 15, 16, 17, 18, 19, 20, 21, 22, 23, 24, 25, 26, 27, 28, 29, 30, 31, 0,
          0, 0, 32, 3, 1, 2, 3, 4, 5, 6, 7, 8, 9, 10, 11, 12, 13, 14, 15, 16, 17,
          18, 19, 20, 21, 22, 23, 24, 25, 26, 27, 28, 29, 30, 31]], tx = [], tx_budget = None, close_raises = False\<rparr>)
        (new_client ''localhost'' 12346)
     = Inr (True,
            \<lparr>host = ''localhost'', port = 12346,
             client_socket = Some \<lparr>rx = [],
                                    tx = [0, 0, 0, 1, 1, 0, 0, 0, 1, 2, 0, 0, 0, 2, 1, 2],
                                    tx_budget = None, close_raises = False\<rparr>,
             aesgcm = Some (take 32 
        [2, 1, 2, 3, 4, 5, 6, 7, 8, 9, 10, 11, 12, 13, 14, 15, 16, 17, 18, 19, 20,
        21, 22, 23, 24, 25, 26, 27, 28, 29, 30, 31]), connected = True\<rparr>)"
proof -
  let ?tc = "\<lparr>rx = [Data [0, 0, 0], Data [1, 6]], tx = [], tx_budget = None,
              close_raises = False\<rparr>"
  let ?tc' = "\<lparr>rx = [], tx = [0, 0, 0, 1, 5], tx_budget = None, close_raises = False\<rparr>"
  let ?sc = "\<lparr>rx = [Data 
          [0, 0, 0, 1, 3, 0, 0, 0, 31, 1, 2, 3, 4, 5, 6, 7, 8, 9, 10, 11, 12, 13,
          14, 15, 16, 17, 18, 19, 20, 21, 22, 23, 24, 25, 26, 27, 28, 29, 30, 31, 0,
          0, 0, 32, 3, 1, 2, 3, 4, 5, 6, 7, 8, 9, 10, 11, 12, 13, 14, 15, 16, 17,
          18, 19, 20, 21, 22, 23, 24, 25, 26, 27, 28, 29, 30, 31]], tx = [], tx_budget = None, close_raises = False\<rparr>"
  let ?sc' = "\<lparr>rx = [], tx = [0, 0, 0, 1, 1, 0, 0, 0, 1, 2, 0, 0, 0, 2, 1, 2],
               tx_budget = None, close_raises = False\<rparr>"
  let ?ss = "\<lparr>rx = [Data [0, 0, 0, 1, 1, 0, 0, 0, 1, 2, 0, 0, 0, 2, 1, 2]], tx = [],
              tx_budget = None, close_raises = False\<rparr>"
  let ?ss' = "\<lparr>rx = [], tx = 
        [0, 0, 0, 1, 3, 0, 0, 0, 31, 1, 2, 3, 4, 5, 6, 7, 8, 9, 10, 11, 12, 13, 14,
        15, 16, 17, 18, 19, 20, 21, 22, 23, 24, 25, 26, 27, 28, 29, 30, 31, 0, 0, 0,
        32, 3, 1, 2, 3, 4, 5, 6, 7, 8, 9, 10, 11, 12, 13, 14, 15, 16, 17, 18, 19,
        20, 21, 22, 23, 24, 25, 26, 27, 28, 29, 30, 31], tx_budget = None, close_raises = False\<rparr>"
  let ?secret = "
        [2, 1, 2, 3, 4, 5, 6, 7, 8, 9, 10, 11, 12, 13, 14, 15, 16, 17, 18, 19, 20,
        21, 22, 23, 24, 25, 26, 27, 28, 29, 30, 31]"
  let ?ct = "
        [1, 2, 3, 4, 5, 6, 7, 8, 9, 10, 11, 12, 13, 14, 15, 16, 17, 18, 19, 20, 21,
        22, 23, 24, 25, 26, 27, 28, 29, 30, 31]"
  let ?k = "hkdf_derive toy 32 handshake_data [11]"
  let ?c = "new_client ''localhost'' 12345" and ?q = "new_client ''localhost'' 12346"
  let ?c' = "\<lparr>host = ''localhost'', port = 12345, client_socket = Some ?tc',
               aesgcm = Some ?k, connected = True\<rparr>"
  let ?q' = "\<lparr>host = ''localhost'', port = 12346, client_socket = Some ?sc',
               aesgcm = Some (take 32 ?secret), connected = True\<rparr>"
  have tc: "perform_key_exchange toy [5] ?tc = (Some ?k, ?tc')"
    by (simp add: perform_key_exchange_def perform_key_exchange_try_def run_defs)
  have hk: "\<forall>info x. length (hkdf_derive toy 32 info x) = 32"
    by (auto simp: toy_def min_def)
  have c: "client_perform_pqc_key_exchange toy ([1], [1]) ([2], [2]) ?sc
             = (Some (take 32 ?secret), ?sc')"
    by (simp add: client_perform_pqc_key_exchange_def client_perform_pqc_key_exchange_try_def
          run_defs)
  have s: "server_perform_pqc_key_exchange toy ([3], [3]) ?ct ?ss
             = (Some (take 32 ?secret), ?ss')"
    by (simp add: server_perform_pqc_key_exchange_def server_perform_pqc_key_exchange_try_def
          run_defs)
  have cc: "classical_connect toy [5] (\<lambda>a. Some ?tc) ?c = Inr (True, ?c')"
  proof -
    have klen: "length ?k = 32" using hk by blast
    then have kne: "?k \<noteq> []" by auto
    show ?thesis
      by (simp add: classical_connect_def connect_def connect_try_def tc AESGCM_def
            new_client_def Let_def klen kne disconnect_eq)
  qed
  have pc: "pqc_connect toy ([1], [1]) ([2], [2]) (\<lambda>a. Some ?sc) ?q = Inr (True, ?q')"
    by (simp add: pqc_connect_def connect_def connect_try_def c AESGCM_def new_client_def
          Let_def disconnect_eq)
  from key_derivation_by_mode
      [where p = toy and sk = "[5]" and s = ?tc and key = ?k and s' = ?tc'
         and cskp = "([1], [1])" and kkp = "([2], [2])" and t = ?sc
         and key' = "take 32 ?secret" and t' = ?sc'
         and sskp = "([3], [3])" and coins = ?ct and u = ?ss
         and key'' = "take 32 ?secret" and u' = ?ss'
         and net = "\<lambda>a. Some ?tc" and c = ?c and c' = ?c']
    tc hk
  have "length ?k = 32" by blast
  moreover have "length (take 32 ?secret) = 32" by simp
  ultimately show ?thesis using tc c s cc pc by simp
qed

section \<open>The network impairment model and the timed block\<close>

lemma uniform_zero: "uniform 0 b u = b * u"
  by (simp add: uniform_def)

lemma uniform_bounds:
  "0 \<le> b \<Longrightarrow> 0 \<le> u \<Longrightarrow> u \<le> 1 \<Longrightarrow> 0 \<le> uniform 0 b u \<and> uniform 0 b u \<le> b"
  by (simp add: uniform_def mult_left_le)

lemma uniform_onto:
  assumes "0 \<le> j" "j \<le> b"
  shows "\<exists>u. 0 \<le> u \<and> u \<le> 1 \<and> uniform 0 b u = j"
proof (cases "b = 0")
  case True
  with assms show ?thesis by (intro exI[of _ 0]) (simp add: uniform_def)
next
  case False
  with assms have "0 < b" by simp
  with assms show ?thesis
    by (intro exI[of _ "j / b"]) (simp add: uniform_def)
qed

lemma uniform_at_most:
  assumes "0 < b" "0 \<le> t" "t \<le> b"
  shows "{u. 0 \<le> u \<and> u \<le> 1 \<and> uniform 0 b u \<le> t} = {u. 0 \<le> u \<and> u \<le> t / b}"
proof -
  have a: "b * u \<le> t \<longleftrightarrow> u \<le> t / b" for u
    using assms(1) by (simp add: pos_le_divide_eq mult.commute)
  have b: "t / b \<le> 1" using assms by simp
  show ?thesis
    using b by (auto simp: uniform_zero a)
qed

lemma simulate_network_penalties_eq:
  "simulate_network_penalties raw latency loss u =
     (if loss > 0
      then (raw + max latency 0) * (1 + loss / 100)
           + (raw + max latency 0) * (1 + loss / 100) * (loss / 500) * u
      else raw + max latency 0)"
  by (simp add: simulate_network_penalties_def Let_def uniform_def)

lemma simulate_network_penalties_jitter:
  "0 < loss \<Longrightarrow>
     simulate_network_penalties raw latency loss u =
       (raw + max latency 0) * (1 + loss / 100)
       + uniform 0 ((raw + max latency 0) * (1 + loss / 100) * (loss / 500)) u"
  by (simp add: simulate_network_penalties_def Let_def)

lemma simulate_network_penalties_bounds:
  assumes "0 \<le> u" "u \<le> 1" "0 < loss" "0 \<le> raw + max latency 0"
  shows "(raw + max latency 0) * (1 + loss / 100) \<le> simulate_network_penalties raw latency loss u
       \<and> simulate_network_penalties raw latency loss u
           \<le> (raw + max latency 0) * (1 + loss / 100)
             + (raw + max latency 0) * (1 + loss / 100) * (loss / 500)"
proof -
  let ?a = "(raw + max latency 0) * (1 + loss / 100)"
  have "0 \<le> ?a" using assms(3,4) by simp
  then have "0 \<le> ?a * (loss / 500)" using assms(3) by simp
  from uniform_bounds[OF this assms(1,2)] assms(3)
  show ?thesis by (simp add: simulate_network_penalties_jitter)
qed

text \<open>
  C5. The impairment function computes \<open>adjusted = raw + max(latency, 0)\<close>; when the
  packet loss is positive it multiplies \<open>adjusted\<close> by \<open>1 + loss / 100\<close> and adds the
  jitter \<open>uniform(0, bound)\<close>, whose bound \<open>adjusted * loss / 500\<close> is taken from the
  value already multiplied. The jitter is the bound times the draw \<open>u\<close> of the unit
  interval: it lies between 0 and the bound, every value of that interval is the jitter
  of some draw, and the draws whose jitter is at most \<open>t\<close> are those up to \<open>t / bound\<close>,
  the share of the unit interval that a uniform distribution on \<open>[0, bound]\<close> gives to
  \<open>[0, t]\<close>. For a raw time that is not negative the result therefore lies between the
  multiplied value and that value plus the bound. For raw 100, latency 30 and loss 0 the
  result is 130; for loss 2 it is \<open>132.6 + 0.5304 * u\<close>, between \<open>130 * 1.02\<close> and
  \<open>130 * 1.02 + 130 * 1.02 * 0.004\<close>. Floats are taken as reals.
\<close>

theorem network_penalties_model:
  "simulate_network_penalties raw latency loss u =
     (if loss > 0
      then (raw + max latency 0) * (1 + loss / 100)
           + (raw + max latency 0) * (1 + loss / 100) * (loss / 500) * u
      else raw + max latency 0)
   \<and> (0 < loss \<longrightarrow>
        simulate_network_penalties raw latency loss u =
          (raw + max latency 0) * (1 + loss / 100)
          + uniform 0 ((raw + max latency 0) * (1 + loss / 100) * (loss / 500)) u)
   \<and> uniform 0 b u = b * u
   \<and> (0 \<le> b \<and> 0 \<le> u \<and> u \<le> 1 \<longrightarrow> 0 \<le> uniform 0 b u \<and> uniform 0 b u \<le> b)
   \<and> (0 \<le> j \<and> j \<le> b \<longrightarrow> (\<exists>v. 0 \<le> v \<and> v \<le> 1 \<and> uniform 0 b v = j))
   \<and> (0 < b \<and> 0 \<le> t \<and> t \<le> b \<longrightarrow>
        {v. 0 \<le> v \<and> v \<le> 1 \<and> uniform 0 b v \<le> t} = {v. 0 \<le> v \<and> v \<le> t / b})
   \<and> (0 \<le> u \<and> u \<le> 1 \<and> 0 < loss \<and> 0 \<le> raw + max latency 0 \<longrightarrow>
        (raw + max latency 0) * (1 + loss / 100)
          \<le> simulate_network_penalties raw latency loss u
        \<and> simulate_network_penalties raw latency loss u
          \<le> (raw + max latency 0) * (1 + loss / 100)
            + (raw + max latency 0) * (1 + loss / 100) * (loss / 500))
   \<and> simulate_network_penalties 100 30 0 u = 130
   \<and> simulate_network_penalties 100 30 2 u = 132.6 + 0.5304 * u
   \<and> (0 \<le> u \<and> u \<le> 1 \<longrightarrow>
        130 * 1.02 \<le> simulate_network_penalties 100 30 2 u
        \<and> simulate_network_penalties 100 30 2 u \<le> 130 * 1.02 + 130 * 1.02 * 0.004)"
proof (intro conjI impI)
  show "simulate_network_penalties raw latency loss u =
     (if loss > 0
      then (raw + max latency 0) * (1 + loss / 100)
           + (raw + max latency 0) * (1 + loss / 100) * (loss / 500) * u
      else raw + max latency 0)"
    by (rule simulate_network_penalties_eq)
  show "uniform 0 b u = b * u" by (rule uniform_zero)
  show "simulate_network_penalties 100 30 0 u = 130"
    by (simp add: simulate_network_penalties_eq)
  show "simulate_network_penalties 100 30 2 u = 132.6 + 0.5304 * u"
    by (simp add: simulate_network_penalties_eq)
next
  assume "0 < loss"
  then show "simulate_network_penalties raw latency loss u =
          (raw + max latency 0) * (1 + loss / 100)
          + uniform 0 ((raw + max latency 0) * (1 + loss / 100) * (loss / 500)) u"
    by (rule simulate_network_penalties_jitter)
next
  assume "0 \<le> b \<and> 0 \<le> u \<and> u \<le> 1"
  then show "0 \<le> uniform 0 b u" "uniform 0 b u \<le> b"
    using uniform_bounds[of b u] by simp_all
next
  assume "0 \<le> j \<and> j \<le> b"
  then show "\<exists>v. 0 \<le> v \<and> v \<le> 1 \<and> uniform 0 b v = j"
    using uniform_onto[of j b] by simp
next
  assume "0 < b \<and> 0 \<le> t \<and> t \<le> b"
  then show "{v. 0 \<le> v \<and> v \<le> 1 \<and> uniform 0 b v \<le> t} = {v. 0 \<le> v \<and> v \<le> t / b}"
    using uniform_at_most[of b t] by simp
next
  assume h: "0 \<le> u \<and> u \<le> 1 \<and> 0 < loss \<and> 0 \<le> raw + max latency 0"
  then show "(raw + max latency 0) * (1 + loss / 100)
          \<le> simulate_network_penalties raw latency loss u"
    and "simulate_network_penalties raw latency loss u
          \<le> (raw + max latency 0) * (1 + loss / 100)
            + (raw + max latency 0) * (1 + loss / 100) * (loss / 500)"
    using simulate_network_penalties_bounds[of u loss raw latency] by simp_all
next
  assume h: "0 \<le> u \<and> u \<le> 1"
  then have "(100 + max 30 0) * (1 + 2 / 100) \<le> simulate_network_penalties 100 30 2 u
       \<and> simulate_network_penalties 100 30 2 u
           \<le> (100 + max 30 0) * (1 + 2 / 100)
             + (100 + max 30 0) * (1 + 2 / 100) * (2 / 500)"
    using simulate_network_penalties_bounds[of u 2 100 30] by simp
  then show "130 * 1.02 \<le> simulate_network_penalties 100 30 2 u"
    and "simulate_network_penalties 100 30 2 u \<le> 130 * 1.02 + 130 * 1.02 * 0.004"
    by simp_all
qed

theorem network_penalties_model_witness:
  "simulate_network_penalties 100 30 2 (1 / 4) = 132.7326
   \<and> simulate_network_penalties 100 30 2 0 = 132.6
   \<and> simulate_network_penalties 100 30 2 1 = 133.1304
   \<and> 130 * 1.02 \<le> simulate_network_penalties 100 30 2 (1 / 4)
   \<and> simulate_network_penalties 100 30 2 (1 / 4) \<le> 130 * 1.02 + 130 * 1.02 * 0.004
   \<and> uniform 0 0.5304 (1 / 4) = 0.1326
   \<and> (\<exists>v. 0 \<le> v \<and> v \<le> 1 \<and> uniform 0 0.5304 v = 0.1326)
   \<and> {v. 0 \<le> v \<and> v \<le> 1 \<and> uniform 0 0.5304 v \<le> 0.1326} = {v. 0 \<le> v \<and> v \<le> 1 / 4}
   \<and> simulate_network_penalties 100 (- 5) 0 (1 / 4) = 100"
proof -
  note m = network_penalties_model
      [where raw = 100 and latency = 30 and loss = 2 and u = "1 / 4" and b = "0.5304"
         and j = "0.1326" and t = "0.1326"]
  note m0 = network_penalties_model
      [where raw = 100 and latency = 30 and loss = 2 and u = 0 and b = 0 and j = 0 and t = 0]
  note m1 = network_penalties_model
      [where raw = 100 and latency = 30 and loss = 2 and u = 1 and b = 0 and j = 0 and t = 0]
  note m2 = network_penalties_model
      [where raw = 100 and latency = "- 5" and loss = 0 and u = "1 / 4" and b = 0 and j = 0
         and t = 0]
  have v: "simulate_network_penalties 100 30 2 (1 / 4) = 132.7326"
    using m by simp
  have v0: "simulate_network_penalties 100 30 2 0 = 132.6"
    using m0 by simp
  have v1: "simulate_network_penalties 100 30 2 1 = 133.1304"
    using m1 by simp
  have v2: "simulate_network_penalties 100 (- 5) 0 (1 / 4) = 100"
    using m2 by simp
  have lo: "130 * 1.02 \<le> simulate_network_penalties 100 30 2 (1 / 4)"
    and hi: "simulate_network_penalties 100 30 2 (1 / 4) \<le> 130 * 1.02 + 130 * 1.02 * 0.004"
    using m by simp_all
  have u: "uniform 0 0.5304 (1 / 4) = 0.1326"
    using m by simp
  have ex: "\<exists>v. 0 \<le> v \<and> v \<le> 1 \<and> uniform 0 0.5304 v = 0.1326"
  proof -
    have "(0::real) \<le> 0.1326 \<and> (0.1326::real) \<le> 0.5304" by simp
    with m show ?thesis by blast
  qed
  have st: "{v. 0 \<le> v \<and> v \<le> 1 \<and> uniform 0 0.5304 v \<le> 0.1326}
              = {v. 0 \<le> v \<and> v \<le> 1 / 4}"
  proof -
    have "(0::real) < 0.5304 \<and> (0::real) \<le> 0.1326 \<and> (0.1326::real) \<le> 0.5304" by simp
    with m have "{v. 0 \<le> v \<and> v \<le> 1 \<and> uniform 0 0.5304 v \<le> 0.1326}
              = {v. 0 \<le> v \<and> v \<le> 0.1326 / 0.5304}"
      by blast
    then show ?thesis by simp
  qed
  from v v0 v1 v2 lo hi u ex st show ?thesis by blast
qed

text \<open>
  C6. The claim is that the raw elapsed time ends just after the handshake and leaves out
  the teardown of the client. The timed block reads the clock the second time after
  \<open>client.disconnect()\<close>, so the time it records is that of \<open>connect\<close> plus that of
  \<open>disconnect\<close>: with a handshake of 2 ms and a disconnect of 1 ms it records 3 ms.
\<close>

theorem timed_block_counts_disconnect:
  "timed_block now True connect_seconds disconnect_seconds
     = Inr ((connect_seconds + disconnect_seconds) * 1000,
            now + connect_seconds + disconnect_seconds)
   \<and> timed_block 0 True 0.002 0.001 = Inr (3, 0.003)
   \<and> measure_handshake 0 True 0.002 0.001 0 0 u = Inr 3"
  by (simp add: timed_block_def measure_handshake_def Let_def simulate_network_penalties_def)

section \<open>The reception loop\<close>









end
